theory Spec2Isabelle
  imports Complex_Main "HOL-Library.AList" "HOL-Library.Option_ord"
begin

section \<open>Vector stores of the document vectorizer (connections.py)\<close>

text \<open>
  The two backends of \<^verbatim>\<open>connections.py\<close>, \<^verbatim>\<open>MongoVectorStore\<close> and
  \<^verbatim>\<open>RedisVectorStore\<close>, are embedded as HOL functions over an explicit state of the
  database they talk to. Exceptions are values: a function that may raise returns
  \<open>exc + 'a\<close>, with \<open>Inl\<close> the exception that leaves the method.

  Numbers: Python's \<^verbatim>\<open>int\<close> is \<open>int\<close> (\<open>nat\<close> for positions and counts). The
  floats of numpy and Python are the values of a type \<open>'f\<close> that is left open, and the
  operations on them (with their rounding, \<^verbatim>\<open>inf\<close> and \<^verbatim>\<open>nan\<close>) are given from outside,
  as the fields of a record: no property of float arithmetic is assumed. Log lines carry
  the text of the source without its check-mark glyph.
\<close>

subsection \<open>Exceptions\<close>

datatype exc_class =
    DatabaseConnectionError
  | DatabaseOperationError
  | ServerSelectionTimeoutError
  | ConnectionFailure
  | RedisConnectionError
  | RedisTimeoutError
  | RedisResponseError
  | ValueError
  | TypeError
  | OtherException

datatype exc = Exc exc_class string

fun exc_cls :: "exc \<Rightarrow> exc_class" where
  "exc_cls (Exc c m) = c"

fun exc_msg :: "exc \<Rightarrow> string" where
  "exc_msg (Exc c m) = m"

subsection \<open>Python's \<^verbatim>\<open>str\<close> on integers\<close>

definition digit_char :: "nat \<Rightarrow> char" where
  "digit_char d = char_of (48 + d)"

fun digits :: "nat \<Rightarrow> string" where
  "digits n = (if n < 10 then [digit_char n] else digits (n div 10) @ [digit_char (n mod 10)])"

declare digits.simps [simp del]

definition py_str :: "int \<Rightarrow> string" where
  "py_str i = (if i < 0 then CHR ''-'' # digits (nat (- i)) else digits (nat i))"

subsection \<open>Data model\<close>

text \<open>
  A chunk is the dict the extractors of \<^verbatim>\<open>main.py\<close> build: the keys \<^verbatim>\<open>text\<close>,
  \<^verbatim>\<open>page_number\<close> (\<^verbatim>\<open>None\<close> for formats without pages), \<^verbatim>\<open>chunk_index\<close>,
  \<^verbatim>\<open>source\<close> and \<^verbatim>\<open>file_type\<close>. An embedding is one row of the array of the
  embedding model.
\<close>

record chunk =
  c_text :: string
  c_page_number :: "int option"
  c_chunk_index :: int
  c_source :: string
  c_file_type :: string

type_synonym 'f embedding = "'f list"

text \<open>The dict \<^verbatim>\<open>doc\<close> that \<^verbatim>\<open>MongoVectorStore.store_embeddings\<close> builds.\<close>

record 'f document =
  m_document_name :: string
  m_text :: string
  m_page_number :: "int option"
  m_chunk_index :: int
  m_source :: string
  m_file_type :: string
  m_embedding :: "'f embedding"
  m_embedding_model :: string
  m_embedding_dimension :: nat
  m_created_at :: string

text \<open>The mapping \<^verbatim>\<open>doc_data\<close> that \<^verbatim>\<open>RedisVectorStore.store_embeddings\<close> writes.\<close>

record 'f redis_hash =
  h_document_name :: string
  h_text :: string
  h_page_number :: int
  h_chunk_index :: int
  h_source :: string
  h_file_type :: string
  h_embedding_model :: string
  h_embedding_dimension :: nat
  h_created_at :: string
  h_embedding :: "'f embedding"

text \<open>One entry of the list that \<^verbatim>\<open>similarity_search\<close> returns.\<close>

record 'f search_result =
  r_text :: string
  r_document_name :: string
  r_page_number :: "int option"
  r_file_type :: string
  similarity_score :: 'f
  r_id :: string

text \<open>
  The float operations the two classes use: \<^verbatim>\<open>np.dot\<close> of two arrays of one length,
  \<^verbatim>\<open>np.linalg.norm\<close>, the product and the quotient of two floats, \<^verbatim>\<open>1 - x\<close>, the
  cast \<^verbatim>\<open>astype(np.float32)\<close> of a component, and
  \<^verbatim>\<open>results.sort(key=lambda x: x['similarity_score'], reverse=True)\<close>, which orders by
  the comparison of floats.
\<close>

record 'f floats =
  fl_dot :: "'f list \<Rightarrow> 'f list \<Rightarrow> 'f"
  fl_norm :: "'f list \<Rightarrow> 'f"
  fl_mul :: "'f \<Rightarrow> 'f \<Rightarrow> 'f"
  fl_div :: "'f \<Rightarrow> 'f \<Rightarrow> 'f"
  fl_one_minus :: "'f \<Rightarrow> 'f"
  fl_float32 :: "'f \<Rightarrow> 'f"
  fl_sort_reverse :: "'f search_result list \<Rightarrow> 'f search_result list"

subsection \<open>The MongoDB collection\<close>

text \<open>
  The collection behind \<^verbatim>\<open>self.collection\<close>: the stored documents in insertion order,
  each with the \<^verbatim>\<open>_id\<close> the driver gave it. An ObjectId is abstracted to the value of
  a counter; \<^verbatim>\<open>str(id)\<close> is its decimal rendering.

  \<^verbatim>\<open>insert_many\<close> is pymongo's: it raises \<^verbatim>\<open>TypeError("documents must be a non-empty
  list")\<close> on an empty list, and otherwise appends the documents and returns their ids in
  the order of the argument. \<^verbatim>\<open>find\<close> and \<^verbatim>\<open>count_documents\<close> take the only two
  filters the class builds: \<^verbatim>\<open>{}\<close> (\<open>None\<close>) and \<^verbatim>\<open>{'file_type': t}\<close> (\<open>Some t\<close>).
\<close>

record 'f mongo_collection =
  docs :: "(nat \<times> 'f document) list"
  next_oid :: nat

definition str_oid :: "nat \<Rightarrow> string" where
  "str_oid n = digits n"

definition insert_many :: "'f mongo_collection \<Rightarrow> 'f document list \<Rightarrow> exc + (nat list \<times> 'f mongo_collection)" where
  "insert_many coll documents =
     (if documents = [] then Inl (Exc TypeError ''documents must be a non-empty list'')
      else
        let inserted_ids = [next_oid coll ..< next_oid coll + length documents]
        in Inr (inserted_ids,
                \<lparr>docs = docs coll @ zip inserted_ids documents,
                 next_oid = next_oid coll + length documents\<rparr>))"

definition find :: "'f mongo_collection \<Rightarrow> string option \<Rightarrow> (nat \<times> 'f document) list" where
  "find coll filter_query =
     (case filter_query of
        None \<Rightarrow> docs coll
      | Some t \<Rightarrow> filter (\<lambda>(oid, d). m_file_type d = t) (docs coll))"

definition count_documents :: "'f mongo_collection \<Rightarrow> string option \<Rightarrow> nat" where
  "count_documents coll filter_query = length (find coll filter_query)"

subsection \<open>\<^verbatim>\<open>MongoVectorStore\<close>: the object and \<^verbatim>\<open>store_embeddings\<close>\<close>

text \<open>
  The fields of \<^verbatim>\<open>self\<close> that \<^verbatim>\<open>__init__\<close> sets from the configuration; the
  collection is passed beside it, since it is the state the methods change.
\<close>

record mongo_store =
  ms_embedding_dim :: nat
  ms_is_connected :: bool

text \<open>
  \<open>now i\<close> is the formatted reading of \<^verbatim>\<open>datetime.now()\<close> in the \<open>i\<close>-th iteration of
  the loop. The loop runs over \<^verbatim>\<open>zip(chunks, embeddings)\<close>; the console output of
  \<^verbatim>\<open>print\<close> is not part of the model.
\<close>

definition mongo_doc :: "string \<Rightarrow> string \<Rightarrow> chunk \<Rightarrow> 'f embedding \<Rightarrow> 'f document" where
  "mongo_doc document_name created chunk embedding =
     \<lparr>m_document_name = document_name,
      m_text = c_text chunk,
      m_page_number = c_page_number chunk,
      m_chunk_index = c_chunk_index chunk,
      m_source = c_source chunk,
      m_file_type = c_file_type chunk,
      m_embedding = embedding,
      m_embedding_model = ''all-MiniLM-L6-v2'',
      m_embedding_dimension = length embedding,
      m_created_at = created\<rparr>"

definition mongo_documents :: "(nat \<Rightarrow> string) \<Rightarrow> chunk list \<Rightarrow> 'f embedding list \<Rightarrow> string \<Rightarrow> 'f document list" where
  "mongo_documents now chunks embeddings document_name =
     map (\<lambda>(i, chunk, embedding). mongo_doc document_name (now i) chunk embedding)
         (enumerate 0 (zip chunks embeddings))"

definition MongoVectorStore_store_embeddings ::
  "(nat \<Rightarrow> string) \<Rightarrow> mongo_store \<Rightarrow> 'f mongo_collection \<Rightarrow> chunk list \<Rightarrow> 'f embedding list \<Rightarrow> string
     \<Rightarrow> exc + (string list \<times> 'f mongo_collection)" where
  "MongoVectorStore_store_embeddings now self coll chunks embeddings document_name =
     (case insert_many coll (mongo_documents now chunks embeddings document_name) of
        Inl e \<Rightarrow> Inl e
      | Inr (inserted_ids, coll') \<Rightarrow> Inr (map str_oid inserted_ids, coll'))"

subsection \<open>The Redis server\<close>

text \<open>
  The server behind \<^verbatim>\<open>self.client\<close>: its hashes by key, its search indexes by name
  (each with the key prefix and the vector dimension it was created with), and the write
  commands it has received, accepted or not. \<open>ping_fault\<close> and \<open>info_fault\<close> are the
  environment's part: when set, \<^verbatim>\<open>ping()\<close> (resp. \<^verbatim>\<open>ft(name).info()\<close>) raises that
  exception whatever the state of the server.

  The search module is RediSearch's: an index holds the hashes whose key starts with its
  prefix and whose vector has its dimension; \<^verbatim>\<open>FT.INFO\<close> fails on an unknown index and
  reports \<^verbatim>\<open>num_docs\<close> otherwise; \<^verbatim>\<open>FT.CREATE\<close> fails on a name that exists.
\<close>

datatype redis_cmd = FT_CREATE string | HSET string

record index_definition =
  ix_prefix :: string
  ix_dim :: nat

record 'f redis_server =
  hashes :: "(string \<times> 'f redis_hash) list"
  indexes :: "(string \<times> index_definition) list"
  issued :: "redis_cmd list"
  ping_fault :: "exc option"
  info_fault :: "exc option"

definition ping :: "'f redis_server \<Rightarrow> exc + bool" where
  "ping srv = (case ping_fault srv of Some e \<Rightarrow> Inl e | None \<Rightarrow> Inr True)"

definition hset :: "string \<Rightarrow> 'f redis_hash \<Rightarrow> 'f redis_server \<Rightarrow> 'f redis_server" where
  "hset key mapping srv =
     srv\<lparr>hashes := AList.update key mapping (hashes srv), issued := issued srv @ [HSET key]\<rparr>"

definition indexed :: "index_definition \<Rightarrow> 'f redis_server \<Rightarrow> (string \<times> 'f redis_hash) list" where
  "indexed d srv =
     filter (\<lambda>(key, h). take (length (ix_prefix d)) key = ix_prefix d \<and> length (h_embedding h) = ix_dim d)
            (hashes srv)"

definition ft_info :: "'f redis_server \<Rightarrow> string \<Rightarrow> exc + nat" where
  "ft_info srv index_name =
     (case info_fault srv of
        Some e \<Rightarrow> Inl e
      | None \<Rightarrow>
          (case map_of (indexes srv) index_name of
             None \<Rightarrow> Inl (Exc RedisResponseError ''Unknown index name'')
           | Some d \<Rightarrow> Inr (length (indexed d srv))))"

definition ft_create_index :: "string \<Rightarrow> index_definition \<Rightarrow> 'f redis_server \<Rightarrow> 'f redis_server \<times> (exc + unit)" where
  "ft_create_index index_name d srv =
     (let srv' = srv\<lparr>issued := issued srv @ [FT_CREATE index_name]\<rparr>
      in case map_of (indexes srv) index_name of
           Some d' \<Rightarrow> (srv', Inl (Exc RedisResponseError ''Index already exists''))
         | None \<Rightarrow> (srv'\<lparr>indexes := indexes srv @ [(index_name, d)]\<rparr>, Inr ()))"

text \<open>
  \<^verbatim>\<open>search(Query("@file_type:{t}").no_content()).total\<close>: the number of indexed hashes
  with that tag.
\<close>

definition ft_search_total :: "'f redis_server \<Rightarrow> string \<Rightarrow> string \<Rightarrow> exc + nat" where
  "ft_search_total srv index_name t =
     (case map_of (indexes srv) index_name of
        None \<Rightarrow> Inl (Exc RedisResponseError (index_name @ '': no such index''))
      | Some d \<Rightarrow> Inr (length (filter (\<lambda>(key, h). h_file_type h = t) (indexed d srv))))"

subsection \<open>\<^verbatim>\<open>RedisVectorStore\<close>: the object and \<^verbatim>\<open>store_embeddings\<close>\<close>

record redis_store =
  rs_embedding_dim :: nat
  rs_index_name :: string
  rs_prefix :: string
  rs_is_connected :: bool

definition redis_doc_id :: "string \<Rightarrow> string \<Rightarrow> chunk \<Rightarrow> nat \<Rightarrow> string" where
  "redis_doc_id prefix document_name chunk i =
     prefix @ document_name @ '':'' @ py_str (c_chunk_index chunk) @ '':'' @ py_str (int i)"

text \<open>
  \<^verbatim>\<open>chunk['page_number'] if chunk['page_number'] else -1\<close>: \<^verbatim>\<open>None\<close> and \<^verbatim>\<open>0\<close> are
  both falsy. \<^verbatim>\<open>embedding.astype(np.float32).tobytes()\<close> stores every component cast to
  float32; \<^verbatim>\<open>len(embedding)\<close> is taken before the cast.
\<close>

definition redis_doc_data ::
  "'f floats \<Rightarrow> string \<Rightarrow> string \<Rightarrow> chunk \<Rightarrow> 'f embedding \<Rightarrow> 'f redis_hash" where
  "redis_doc_data fl document_name created chunk embedding =
     \<lparr>h_document_name = document_name,
      h_text = c_text chunk,
      h_page_number = (case c_page_number chunk of None \<Rightarrow> - 1 | Some p \<Rightarrow> if p = 0 then - 1 else p),
      h_chunk_index = c_chunk_index chunk,
      h_source = c_source chunk,
      h_file_type = c_file_type chunk,
      h_embedding_model = ''all-MiniLM-L6-v2'',
      h_embedding_dimension = length embedding,
      h_created_at = created,
      h_embedding = map (fl_float32 fl) embedding\<rparr>"

fun redis_store_loop ::
  "'f floats \<Rightarrow> (nat \<Rightarrow> string) \<Rightarrow> string \<Rightarrow> string \<Rightarrow> (nat \<times> chunk \<times> 'f embedding) list
     \<Rightarrow> string list \<times> 'f redis_server \<Rightarrow> string list \<times> 'f redis_server" where
  "redis_store_loop fl now prefix document_name [] (doc_ids, srv) = (doc_ids, srv)"
| "redis_store_loop fl now prefix document_name ((i, chunk, embedding) # rest) (doc_ids, srv) =
     (let doc_id = redis_doc_id prefix document_name chunk i
      in redis_store_loop fl now prefix document_name rest
           (doc_ids @ [doc_id],
            hset doc_id (redis_doc_data fl document_name (now i) chunk embedding) srv))"

definition RedisVectorStore_store_embeddings ::
  "'f floats \<Rightarrow> (nat \<Rightarrow> string) \<Rightarrow> redis_store \<Rightarrow> 'f redis_server \<Rightarrow> chunk list
     \<Rightarrow> 'f embedding list \<Rightarrow> string \<Rightarrow> string list \<times> 'f redis_server" where
  "RedisVectorStore_store_embeddings fl now self srv chunks embeddings document_name =
     redis_store_loop fl now (rs_prefix self) document_name
       (enumerate 0 (zip chunks embeddings)) ([], srv)"

subsection \<open>\<^verbatim>\<open>get_statistics\<close>\<close>

record statistics =
  total_chunks :: nat
  by_file_type :: "string \<rightharpoonup> nat"

fun mongo_stats_loop :: "'f mongo_collection \<Rightarrow> string list \<Rightarrow> (string \<rightharpoonup> nat) \<Rightarrow> (string \<rightharpoonup> nat)" where
  "mongo_stats_loop coll [] by_type = by_type"
| "mongo_stats_loop coll (t # ts) by_type =
     (let count = count_documents coll (Some t)
      in mongo_stats_loop coll ts (if count > 0 then by_type(t \<mapsto> count) else by_type))"

definition MongoVectorStore_get_statistics :: "mongo_store \<Rightarrow> 'f mongo_collection \<Rightarrow> statistics" where
  "MongoVectorStore_get_statistics self coll =
     (let total_docs = count_documents coll None
      in \<lparr>total_chunks = total_docs,
          by_file_type = mongo_stats_loop coll [''pdf'', ''txt'', ''docx''] Map.empty\<rparr>)"

datatype log_level = INFO | ERROR

type_synonym log = "(log_level \<times> string) list"

fun redis_stats_loop :: "'f redis_server \<Rightarrow> string \<Rightarrow> string list \<Rightarrow> (string \<rightharpoonup> nat) \<Rightarrow> exc + (string \<rightharpoonup> nat)" where
  "redis_stats_loop srv index_name [] by_type = Inr by_type"
| "redis_stats_loop srv index_name (t # ts) by_type =
     (case ft_search_total srv index_name t of
        Inl e \<Rightarrow> Inl e
      | Inr results_total \<Rightarrow>
          redis_stats_loop srv index_name ts
            (if results_total > 0 then by_type(t \<mapsto> results_total) else by_type))"

definition RedisVectorStore_get_statistics :: "redis_store \<Rightarrow> 'f redis_server \<Rightarrow> log \<times> statistics" where
  "RedisVectorStore_get_statistics self srv =
     (case (case ft_info srv (rs_index_name self) of
              Inl e \<Rightarrow> Inl e
            | Inr total_docs \<Rightarrow>
                (case redis_stats_loop srv (rs_index_name self) [''pdf'', ''txt'', ''docx''] Map.empty of
                   Inl e \<Rightarrow> Inl e
                 | Inr by_type \<Rightarrow> Inr \<lparr>total_chunks = total_docs, by_file_type = by_type\<rparr>)) of
        Inr stats \<Rightarrow> ([], stats)
      | Inl e \<Rightarrow> ([(ERROR, ''Statistics error: '' @ exc_msg e)],
                  \<lparr>total_chunks = 0, by_file_type = Map.empty\<rparr>))"

subsection \<open>numpy and the Python built-ins that \<^verbatim>\<open>similarity_search\<close> uses\<close>

text \<open>
  \<^verbatim>\<open>np.dot\<close> of two one-dimensional arrays raises \<^verbatim>\<open>ValueError\<close> when their lengths
  differ, and is the float \<open>fl_dot\<close> gives otherwise. The other float operations raise
  nothing: a numpy division by zero gives \<^verbatim>\<open>nan\<close> or \<^verbatim>\<open>inf\<close>, which are values of
  \<open>'f\<close>.
\<close>

definition np_dot :: "'f floats \<Rightarrow> 'f embedding \<Rightarrow> 'f embedding \<Rightarrow> exc + 'f" where
  "np_dot fl a b =
     (if length a \<noteq> length b then Inl (Exc ValueError ''shapes not aligned'')
      else Inr (fl_dot fl a b))"

text \<open>The slice \<^verbatim>\<open>xs[:k]\<close>; a negative \<open>k\<close> counts from the end.\<close>

definition py_slice_to :: "'a list \<Rightarrow> int \<Rightarrow> 'a list" where
  "py_slice_to xs k = (if 0 \<le> k then take (nat k) xs else take (length xs - nat (- k)) xs)"

subsection \<open>\<^verbatim>\<open>MongoVectorStore.similarity_search\<close>\<close>

definition mongo_similarity :: "'f floats \<Rightarrow> 'f embedding \<Rightarrow> 'f embedding \<Rightarrow> exc + 'f" where
  "mongo_similarity fl query_embedding doc_embedding =
     (case np_dot fl query_embedding doc_embedding of
        Inl e \<Rightarrow> Inl e
      | Inr d \<Rightarrow>
          Inr (fl_div fl d (fl_mul fl (fl_norm fl query_embedding) (fl_norm fl doc_embedding))))"

definition mongo_result :: "nat \<times> 'f document \<Rightarrow> 'f \<Rightarrow> 'f search_result" where
  "mongo_result od similarity =
     \<lparr>r_text = m_text (snd od),
      r_document_name = m_document_name (snd od),
      r_page_number = m_page_number (snd od),
      r_file_type = m_file_type (snd od),
      similarity_score = similarity,
      r_id = str_oid (fst od)\<rparr>"

fun mongo_score_loop ::
  "'f floats \<Rightarrow> 'f embedding \<Rightarrow> (nat \<times> 'f document) list \<Rightarrow> exc + 'f search_result list" where
  "mongo_score_loop fl query_embedding [] = Inr []"
| "mongo_score_loop fl query_embedding (od # all_docs) =
     (case mongo_similarity fl query_embedding (m_embedding (snd od)) of
        Inl e \<Rightarrow> Inl e
      | Inr similarity \<Rightarrow>
          (case mongo_score_loop fl query_embedding all_docs of
             Inl e \<Rightarrow> Inl e
           | Inr results \<Rightarrow> Inr (mongo_result od similarity # results)))"

text \<open>\<^verbatim>\<open>if file_type_filter:\<close> holds for a string that is not empty.\<close>

definition truthy_filter :: "string option \<Rightarrow> string option" where
  "truthy_filter file_type_filter =
     (case file_type_filter of None \<Rightarrow> None | Some t \<Rightarrow> if t = [] then None else Some t)"

definition MongoVectorStore_similarity_search ::
  "'f floats \<Rightarrow> mongo_store \<Rightarrow> 'f mongo_collection \<Rightarrow> 'f embedding \<Rightarrow> int \<Rightarrow> string option
     \<Rightarrow> exc + 'f search_result list" where
  "MongoVectorStore_similarity_search fl self coll query_embedding top_k file_type_filter =
     (let all_docs = find coll (truthy_filter file_type_filter)
      in if all_docs = [] then Inr []
         else (case mongo_score_loop fl query_embedding all_docs of
                 Inl e \<Rightarrow> Inl e
               | Inr results \<Rightarrow> Inr (py_slice_to (fl_sort_reverse fl results) top_k)))"

subsection \<open>\<^verbatim>\<open>RedisVectorStore.similarity_search\<close>\<close>

text \<open>
  The query object the method builds, and a document of the reply. In a reply document
  \<open>d_page_number\<close> and \<open>d_score\<close> are the values that \<^verbatim>\<open>int(doc.page_number)\<close> and
  \<^verbatim>\<open>float(doc.score)\<close> evaluate to, \<open>None\<close> when the conversion raises (the field is
  missing or is no number; \<^verbatim>\<open>float('nan')\<close> does not raise and is a value of \<open>'f\<close>).
\<close>

record ft_query =
  q_string :: string
  q_return_fields :: "string list"
  q_sort_by :: "string option"
  q_paging :: "int \<times> int"
  q_dialect :: nat

record 'f ft_document =
  d_id :: string
  d_text :: string
  d_document_name :: string
  d_page_number :: "int option"
  d_file_type :: string
  d_score :: "'f option"

definition redis_query :: "int \<Rightarrow> string option \<Rightarrow> ft_query" where
  "redis_query top_k file_type_filter =
     (let base_query = (case truthy_filter file_type_filter of
                          Some t \<Rightarrow> ''(@file_type:{'' @ t @ ''})''
                        | None \<Rightarrow> ''*'');
          query_str = base_query @ ''=>[KNN '' @ py_str top_k @ '' @embedding $vec AS score]''
      in \<lparr>q_string = query_str,
          q_return_fields = [''document_name'', ''text'', ''page_number'', ''file_type'', ''score''],
          q_sort_by = Some ''score'',
          q_paging = (0, top_k),
          q_dialect = 2\<rparr>)"

fun redis_output_loop :: "'f floats \<Rightarrow> 'f ft_document list \<Rightarrow> exc + 'f search_result list" where
  "redis_output_loop fl [] = Inr []"
| "redis_output_loop fl (doc # rest) =
     (case d_page_number doc of
        None \<Rightarrow> Inl (Exc ValueError ''page_number'')
      | Some p \<Rightarrow>
          (case d_score doc of
             None \<Rightarrow> Inl (Exc ValueError ''score'')
           | Some score \<Rightarrow>
               (case redis_output_loop fl rest of
                  Inl e \<Rightarrow> Inl e
                | Inr output \<Rightarrow>
                    Inr (\<lparr>r_text = d_text doc,
                          r_document_name = d_document_name doc,
                          r_page_number = (if p \<noteq> - 1 then Some p else None),
                          r_file_type = d_file_type doc,
                          similarity_score = fl_one_minus fl score,
                          r_id = d_id doc\<rparr> # output))))"

text \<open>
  \<open>search\<close> is \<^verbatim>\<open>self.client.ft(index_name).search(q, query_params={"vec": ...})\<close>: what
  the engine answers to a query on an index, or the exception the call raises.
\<close>

definition RedisVectorStore_similarity_search ::
  "'f floats \<Rightarrow> (string \<Rightarrow> ft_query \<Rightarrow> 'f embedding \<Rightarrow> exc + 'f ft_document list)
     \<Rightarrow> redis_store \<Rightarrow> 'f embedding \<Rightarrow> int \<Rightarrow> string option \<Rightarrow> log \<times> 'f search_result list" where
  "RedisVectorStore_similarity_search fl search self query_embedding top_k file_type_filter =
     (let query_vector = map (fl_float32 fl) query_embedding;
          q = redis_query top_k file_type_filter
      in case (case search (rs_index_name self) q query_vector of
                 Inl e \<Rightarrow> Inl e
               | Inr results_docs \<Rightarrow> redis_output_loop fl results_docs) of
           Inr output \<Rightarrow> ([], output)
         | Inl e \<Rightarrow> ([(ERROR, ''Search error: '' @ exc_msg e)], []))"

subsection \<open>The constructors\<close>

record config_params =
  EMBEDDING_DIM :: nat
  MONGO_ROOT :: string
  MONGO_HOST :: string
  MONGO_PORT :: string
  MONGO_USERNAME :: string
  MONGO_PASSWORD :: string
  MONGO_DIRECT :: string
  MONGO_DATASTORE :: string
  MONGO_COLLECTION :: string
  REDIS_HOST :: string
  REDIS_PORT :: int
  REDIS_DB :: int
  REDIS_INDEX_NAME :: string
  REDIS_DOC_PREFIX :: string

text \<open>
  \<^verbatim>\<open>int(s)\<close> on a string: blanks around, an optional sign, decimal digits with single
  underscores between them; \<^verbatim>\<open>ValueError\<close> otherwise. (Only ASCII blanks and digits:
  a \<open>char\<close> is a byte.)
\<close>

definition is_space :: "char \<Rightarrow> bool" where
  "is_space c = (c \<in> set [CHR '' '', CHR 0x09, CHR 0x0A, CHR 0x0B, CHR 0x0C, CHR 0x0D])"

definition is_digit :: "char \<Rightarrow> bool" where
  "is_digit c = (48 \<le> (of_char c :: nat) \<and> (of_char c :: nat) \<le> 57)"

definition py_strip :: "string \<Rightarrow> string" where
  "py_strip s = rev (dropWhile is_space (rev (dropWhile is_space s)))"

fun digits_ok :: "string \<Rightarrow> bool" where
  "digits_ok [] = False"
| "digits_ok [c] = is_digit c"
| "digits_ok (c # d # r) =
     (is_digit c \<and> (if d = CHR ''_'' then digits_ok r else digits_ok (d # r)))"

definition digits_value :: "string \<Rightarrow> nat" where
  "digits_value s = foldl (\<lambda>acc c. 10 * acc + (of_char c - 48)) 0 (filter is_digit s)"

definition py_int :: "string \<Rightarrow> exc + int" where
  "py_int s =
     (let t = py_strip s;
          neg = (t \<noteq> [] \<and> hd t = CHR ''-'');
          body = (if t \<noteq> [] \<and> (hd t = CHR ''-'' \<or> hd t = CHR ''+'') then tl t else t)
      in if digits_ok body
         then Inr (if neg then - int (digits_value body) else int (digits_value body))
         else Inl (Exc ValueError ''invalid literal for int() with base 10''))"

definition build_uri :: "config_params \<Rightarrow> exc + string" where
  "build_uri cfg =
     (case py_int (MONGO_PORT cfg) of
        Inl e \<Rightarrow> Inl e
      | Inr port \<Rightarrow>
          Inr (if MONGO_ROOT cfg = ''mongodb''
               then (if MONGO_USERNAME cfg \<noteq> []
                     then MONGO_ROOT cfg @ ''://'' @ MONGO_USERNAME cfg @ '':'' @ MONGO_PASSWORD cfg
                            @ ''@'' @ MONGO_HOST cfg @ '':'' @ py_str port @ ''/?'' @ MONGO_DIRECT cfg
                     else MONGO_ROOT cfg @ ''://'' @ MONGO_HOST cfg @ '':'' @ py_str port
                            @ ''/?'' @ MONGO_DIRECT cfg)
               else (if MONGO_USERNAME cfg \<noteq> []
                     then MONGO_ROOT cfg @ ''://'' @ MONGO_USERNAME cfg @ '':'' @ MONGO_PASSWORD cfg
                            @ ''@'' @ MONGO_HOST cfg
                     else MONGO_ROOT cfg @ ''://'' @ MONGO_HOST cfg)))"

text \<open>
  \<open>MongoClient uri\<close> is the environment: the exception, if any, that building the client
  for that URI and selecting the database and the collection raise. The three handlers
  of \<^verbatim>\<open>__init__\<close> are tried in the order of the source.
\<close>

definition MongoVectorStore_init ::
  "(string \<Rightarrow> exc option) \<Rightarrow> config_params \<Rightarrow> log \<times> (exc + mongo_store)" where
  "MongoVectorStore_init MongoClient cfg =
     (let where_to = MONGO_HOST cfg @ '' '' @ MONGO_DATASTORE cfg
      in case (case build_uri cfg of
                 Inl e \<Rightarrow> Inl e
               | Inr uri \<Rightarrow> (case MongoClient uri of Some e \<Rightarrow> Inl e | None \<Rightarrow> Inr ())) of
           Inr u \<Rightarrow>
             ([(INFO, ''MongoDB vector store initialized: '' @ where_to)],
              Inr \<lparr>ms_embedding_dim = EMBEDDING_DIM cfg, ms_is_connected = True\<rparr>)
         | Inl err \<Rightarrow>
             (if exc_cls err = ServerSelectionTimeoutError
              then ([(ERROR, ''MongoDB connection failed: '' @ where_to @ '' '' @ exc_msg err)],
                    Inl (Exc DatabaseConnectionError (''MongoDB connection failed: '' @ exc_msg err)))
              else if exc_cls err = ConnectionFailure
              then ([(ERROR, ''MongoDB connection failed: '' @ where_to @ '' '' @ exc_msg err)],
                    Inl (Exc DatabaseConnectionError (''MongoDB connection failed: '' @ exc_msg err)))
              else ([(ERROR, ''MongoDB connection error: '' @ where_to @ '' '' @ exc_msg err)],
                    Inl (Exc DatabaseConnectionError (''MongoDB connection error: '' @ exc_msg err)))))"

text \<open>
  \<^verbatim>\<open>RedisVectorStore._create_index\<close>: the probe of the index (two \<^verbatim>\<open>info()\<close> calls) in
  a \<^verbatim>\<open>try\<close> whose bare \<^verbatim>\<open>except\<close> creates the index. An exception of
  \<^verbatim>\<open>create_index\<close> leaves the method.
\<close>

definition RedisVectorStore_create_index ::
  "redis_store \<Rightarrow> 'f redis_server \<Rightarrow> log \<times> 'f redis_server \<times> (exc + unit)" where
  "RedisVectorStore_create_index self srv =
     (case (case ft_info srv (rs_index_name self) of
              Inl e \<Rightarrow> Inl e
            | Inr info \<Rightarrow> ft_info srv (rs_index_name self)) of
        Inr info \<Rightarrow> ([(ERROR, ''  Index already exists'')], srv, Inr ())
      | Inl e \<Rightarrow>
          (case ft_create_index (rs_index_name self)
                  \<lparr>ix_prefix = rs_prefix self, ix_dim = rs_embedding_dim self\<rparr> srv of
             (srv', Inl e') \<Rightarrow> ([], srv', Inl e')
           | (srv', Inr u) \<Rightarrow> ([(INFO, ''Created new search index'')], srv', Inr ())))"

text \<open>
  \<^verbatim>\<open>RedisVectorStore.__init__\<close>. \<^verbatim>\<open>redis.Redis(...)\<close> opens no connection and raises
  nothing; \<^verbatim>\<open>ping()\<close> is the first command sent. \<open>RedisConnectionError\<close> stands for
  \<^verbatim>\<open>redis.exceptions.ConnectionError\<close> and its subclasses. The handler for
  \<^verbatim>\<open>Exception\<close> logs and does not raise: the constructor then returns the object.
\<close>

definition redis_init_handler ::
  "config_params \<Rightarrow> exc \<Rightarrow> log \<Rightarrow> 'f redis_server \<Rightarrow> redis_store \<Rightarrow> log \<times> 'f redis_server \<times> (exc + redis_store)" where
  "redis_init_handler cfg err lg srv self =
     (let line = (ERROR, ''Redis connection failed: '' @ REDIS_HOST cfg @ '':''
                          @ py_str (REDIS_PORT cfg) @ '' '' @ exc_msg err)
      in if exc_cls err = RedisConnectionError
         then (lg @ [line], srv,
               Inl (Exc DatabaseConnectionError (''Redis connection failed: '' @ exc_msg err)))
         else (lg @ [line], srv, Inr self))"

definition RedisVectorStore_init ::
  "config_params \<Rightarrow> 'f redis_server \<Rightarrow> log \<times> 'f redis_server \<times> (exc + redis_store)" where
  "RedisVectorStore_init cfg srv =
     (let self = \<lparr>rs_embedding_dim = EMBEDDING_DIM cfg,
                  rs_index_name = REDIS_INDEX_NAME cfg,
                  rs_prefix = REDIS_DOC_PREFIX cfg,
                  rs_is_connected = False\<rparr>
      in case ping srv of
           Inl err \<Rightarrow> redis_init_handler cfg err [] srv self
         | Inr pong \<Rightarrow>
             (let self' = self\<lparr>rs_is_connected := True\<rparr>
              in case RedisVectorStore_create_index self' srv of
                   (lg, srv', Inl err) \<Rightarrow> redis_init_handler cfg err lg srv' self'
                 | (lg, srv', Inr u) \<Rightarrow>
                     (lg @ [(INFO, ''Redis vector store initialized: '' @ REDIS_HOST cfg @ '':''
                                     @ py_str (REDIS_PORT cfg) @ ''/'' @ py_str (REDIS_DB cfg))],
                      srv', Inr self')))"

subsection \<open>Successive calls of \<^verbatim>\<open>store_embeddings\<close>\<close>

text \<open>
  The loop of \<^verbatim>\<open>main.py\<close> stores one document after the other, each with its chunks,
  its embeddings and its name; an exception of one document is caught there and the loop
  goes on with the next. The identifiers of all the calls are collected in order.
\<close>

type_synonym 'f batch = "chunk list \<times> 'f embedding list \<times> string"

fun mongo_store_all ::
  "(nat \<Rightarrow> string) \<Rightarrow> mongo_store \<Rightarrow> 'f mongo_collection \<Rightarrow> 'f batch list \<Rightarrow> string list \<times> 'f mongo_collection" where
  "mongo_store_all now self coll [] = ([], coll)"
| "mongo_store_all now self coll ((chunks, embeddings, document_name) # rest) =
     (case MongoVectorStore_store_embeddings now self coll chunks embeddings document_name of
        Inl e \<Rightarrow> mongo_store_all now self coll rest
      | Inr (doc_ids, coll') \<Rightarrow>
          (case mongo_store_all now self coll' rest of
             (more_ids, coll'') \<Rightarrow> (doc_ids @ more_ids, coll'')))"

fun redis_store_all ::
  "'f floats \<Rightarrow> (nat \<Rightarrow> string) \<Rightarrow> redis_store \<Rightarrow> 'f redis_server \<Rightarrow> 'f batch list
     \<Rightarrow> string list \<times> 'f redis_server" where
  "redis_store_all fl now self srv [] = ([], srv)"
| "redis_store_all fl now self srv ((chunks, embeddings, document_name) # rest) =
     (case RedisVectorStore_store_embeddings fl now self srv chunks embeddings document_name of
        (doc_ids, srv') \<Rightarrow>
          (case redis_store_all fl now self srv' rest of
             (more_ids, srv'') \<Rightarrow> (doc_ids @ more_ids, srv'')))"

text \<open>The keys and records that one Redis call writes, for the statements below.\<close>

definition redis_batch_entries ::
  "'f floats \<Rightarrow> (nat \<Rightarrow> string) \<Rightarrow> string \<Rightarrow> 'f batch \<Rightarrow> (string \<times> 'f redis_hash) list" where
  "redis_batch_entries fl now prefix b =
     (case b of (chunks, embeddings, document_name) \<Rightarrow>
        map (\<lambda>(i, chunk, embedding).
               (redis_doc_id prefix document_name chunk i,
                redis_doc_data fl document_name (now i) chunk embedding))
            (enumerate 0 (zip chunks embeddings)))"

subsection \<open>The cosine similarity in the words of the specification\<close>

text \<open>
  \<open>similarity = dot(q, v) / (norm(q) * norm(v))\<close>, in the float operations, to compare the
  code with.
\<close>

definition spec_cosine :: "'f floats \<Rightarrow> 'f list \<Rightarrow> 'f list \<Rightarrow> 'f" where
  "spec_cosine fl q v = fl_div fl (fl_dot fl q v) (fl_mul fl (fl_norm fl q) (fl_norm fl v))"

subsection \<open>Example inputs\<close>

text \<open>
  An arithmetic for the examples: exact arithmetic on the reals, with which float64 and
  float32 agree on the vectors of zeros and ones used below, and a stable descending
  sort by score.
\<close>

definition ex_floats :: "real floats" where
  "ex_floats =
     \<lparr>fl_dot = (\<lambda>a b. sum_list (map (\<lambda>(x, y). x * y) (zip a b))),
      fl_norm = (\<lambda>a. sqrt (sum_list (map (\<lambda>x. x * x) a))),
      fl_mul = (\<lambda>x y. x * y),
      fl_div = (\<lambda>x y. x / y),
      fl_one_minus = (\<lambda>x. 1 - x),
      fl_float32 = (\<lambda>x. x),
      fl_sort_reverse = (\<lambda>xs. rev (sort_key similarity_score (rev xs)))\<rparr>"

definition ex_clock :: "nat \<Rightarrow> string" where
  "ex_clock i = ''2025-10-20 12:00:00.00000'' @ digits i"

definition ex_chunk_txt :: chunk where
  "ex_chunk_txt =
     \<lparr>c_text = ''alpha'', c_page_number = None, c_chunk_index = 0,
      c_source = ''docs/a.txt'', c_file_type = ''txt''\<rparr>"

definition ex_chunk_pdf :: chunk where
  "ex_chunk_pdf =
     \<lparr>c_text = ''beta'', c_page_number = Some 1, c_chunk_index = 0,
      c_source = ''docs/b.pdf'', c_file_type = ''pdf''\<rparr>"

definition ex_mongo_self :: mongo_store where
  "ex_mongo_self = \<lparr>ms_embedding_dim = 3, ms_is_connected = True\<rparr>"

definition ex_redis_self :: redis_store where
  "ex_redis_self =
     \<lparr>rs_embedding_dim = 3, rs_index_name = ''idx'', rs_prefix = ''doc:'', rs_is_connected = True\<rparr>"

definition ex_empty_collection :: "real mongo_collection" where
  "ex_empty_collection = \<lparr>docs = [], next_oid = 0\<rparr>"

definition ex_empty_server :: "real redis_server" where
  "ex_empty_server =
     \<lparr>hashes = [], indexes = [], issued = [], ping_fault = None, info_fault = None\<rparr>"

definition ex_indexed_server :: "real redis_server" where
  "ex_indexed_server =
     \<lparr>hashes = [], indexes = [(''idx'', \<lparr>ix_prefix = ''doc:'', ix_dim = 3\<rparr>)], issued = [FT_CREATE ''idx''],
      ping_fault = None, info_fault = None\<rparr>"


definition ex_collection_short :: "real mongo_collection" where
  "ex_collection_short =
     \<lparr>docs = [(0, mongo_doc ''a.txt'' (ex_clock 0) ex_chunk_txt [1, 0])], next_oid = 1\<rparr>"

definition ex_engine_down :: "string \<Rightarrow> ft_query \<Rightarrow> real embedding \<Rightarrow> exc + real ft_document list" where
  "ex_engine_down index_name q vec = Inl (Exc RedisConnectionError ''Connection refused'')"

definition ex_config :: config_params where
  "ex_config =
     \<lparr>EMBEDDING_DIM = 3,
      MONGO_ROOT = ''mongodb'', MONGO_HOST = ''localhost'', MONGO_PORT = ''27017'',
      MONGO_USERNAME = [], MONGO_PASSWORD = [], MONGO_DIRECT = ''directConnection=true'',
      MONGO_DATASTORE = ''vectors'', MONGO_COLLECTION = ''chunks'',
      REDIS_HOST = ''localhost'', REDIS_PORT = 6379, REDIS_DB = 0,
      REDIS_INDEX_NAME = ''idx'', REDIS_DOC_PREFIX = ''doc:''\<rparr>"

definition ex_server_timeout :: "real redis_server" where
  "ex_server_timeout =
     \<lparr>hashes = [], indexes = [], issued = [],
      ping_fault = Some (Exc RedisTimeoutError ''Timeout connecting to server''),
      info_fault = None\<rparr>"

definition ex_server_probe_fails :: "real redis_server" where
  "ex_server_probe_fails =
     \<lparr>hashes = [], indexes = [(''idx'', \<lparr>ix_prefix = ''doc:'', ix_dim = 3\<rparr>)], issued = [FT_CREATE ''idx''],
      ping_fault = None,
      info_fault = Some (Exc RedisConnectionError ''Connection reset by peer'')\<rparr>"

section \<open>Properties\<close>

subsection \<open>Decimal renderings are injective and hold no colon\<close>

lemma digits_nonempty: "digits n \<noteq> []"
  by (subst digits.simps) simp

lemma of_char_digit_char: "d < 10 \<Longrightarrow> of_char (digit_char d) = 48 + d"
  by (simp add: digit_char_def)

lemma digit_char_inj: "a < 10 \<Longrightarrow> b < 10 \<Longrightarrow> digit_char a = digit_char b \<Longrightarrow> a = b"
proof -
  assume a: "a < 10" and b: "b < 10" and e: "digit_char a = digit_char b"
  have "(of_char (digit_char a) :: nat) = of_char (digit_char b)" using e by simp
  then show "a = b" using a b by (simp add: of_char_digit_char)
qed

lemma digit_char_not_colon: "d < 10 \<Longrightarrow> digit_char d \<noteq> CHR '':''"
proof
  assume d: "d < 10" and e: "digit_char d = CHR '':''"
  have "(of_char (digit_char d) :: nat) = of_char (CHR '':'')" using e by simp
  then show False using d by (simp add: of_char_digit_char)
qed

lemma last_digits: "last (digits n) = digit_char (n mod 10)"
  by (subst digits.simps) simp

lemma butlast_digits: "butlast (digits n) = (if n < 10 then [] else digits (n div 10))"
  by (subst digits.simps) (simp add: butlast_append)

lemma digits_inj: "digits n = digits m \<Longrightarrow> n = m"
proof (induction n arbitrary: m rule: digits.induct)
  case (1 n)
  have l: "digit_char (n mod 10) = digit_char (m mod 10)"
    using "1.prems" last_digits by metis
  then have md: "n mod 10 = m mod 10" by (intro digit_char_inj) simp_all
  have b: "butlast (digits n) = butlast (digits m)" using "1.prems" by simp
  show ?case
  proof (cases "n < 10")
    case True
    with b have "m < 10"
      using digits_nonempty[of "m div 10"] by (auto simp: butlast_digits split: if_splits)
    with True md show ?thesis by simp
  next
    case False
    with b have m: "\<not> m < 10" and e: "digits (n div 10) = digits (m div 10)"
      using digits_nonempty[of "m div 10"] digits_nonempty[of "n div 10"]
      by (auto simp: butlast_digits split: if_splits)
    from "1.IH"[OF False e] have "n div 10 = m div 10" .
    with md show ?thesis by (metis div_mult_mod_eq)
  qed
qed

lemma colon_notin_digits: "CHR '':'' \<notin> set (digits n)"
proof (induction n rule: digits.induct)
  case (1 n)
  show ?case
  proof (cases "n < 10")
    case True
    then show ?thesis
      using digit_char_not_colon[of n] by (subst digits.simps) auto
  next
    case False
    with 1 show ?thesis
      using digit_char_not_colon[of "n mod 10"] by (subst digits.simps) auto
  qed
qed

lemma suffix_digits_inj:
  assumes "xs @ CHR '':'' # digits i = ys @ CHR '':'' # digits j"
  shows "i = j"
proof -
  have tw: "\<And>zs k. takeWhile (\<lambda>c. c \<noteq> CHR '':'') (rev (zs @ CHR '':'' # digits k)) = rev (digits k)"
  proof -
    fix zs k
    have "\<forall>c\<in>set (rev (digits k)). c \<noteq> CHR '':''" using colon_notin_digits[of k] by auto
    then show "takeWhile (\<lambda>c. c \<noteq> CHR '':'') (rev (zs @ CHR '':'' # digits k)) = rev (digits k)"
      by (simp add: takeWhile_tail)
  qed
  have "rev (digits i) = rev (digits j)"
    using arg_cong[OF assms, of "\<lambda>s. takeWhile (\<lambda>c. c \<noteq> CHR '':'') (rev s)"] by (simp only: tw)
  then show ?thesis using digits_inj by simp
qed

lemma py_str_nat: "py_str (int i) = digits i"
  by (simp add: py_str_def)

lemma redis_doc_id_inj:
  "redis_doc_id prefix name c i = redis_doc_id prefix' name' c' j \<Longrightarrow> i = j"
  unfolding redis_doc_id_def py_str_nat
  using suffix_digits_inj[of "prefix @ name @ '':'' @ py_str (c_chunk_index c)" i "prefix' @ name' @ '':'' @ py_str (c_chunk_index c')" j]
  by simp

subsection \<open>What \<^verbatim>\<open>store_embeddings\<close> writes\<close>

lemma mongo_documents_length:
  "length (mongo_documents now chunks embeddings name) = min (length chunks) (length embeddings)"
  by (simp add: mongo_documents_def)

lemma mongo_documents_nth:
  "i < length chunks \<Longrightarrow> i < length embeddings \<Longrightarrow>
   mongo_documents now chunks embeddings name ! i = mongo_doc name (now i) (chunks ! i) (embeddings ! i)"
  by (simp add: mongo_documents_def nth_enumerate_eq)

lemma mongo_store_Inr:
  assumes "chunks \<noteq> []" "embeddings \<noteq> []"
  shows "MongoVectorStore_store_embeddings now self coll chunks embeddings name =
         Inr (map str_oid [next_oid coll ..< next_oid coll + min (length chunks) (length embeddings)],
              \<lparr>docs = docs coll @ zip [next_oid coll ..< next_oid coll + min (length chunks) (length embeddings)]
                                     (mongo_documents now chunks embeddings name),
               next_oid = next_oid coll + min (length chunks) (length embeddings)\<rparr>)"
proof -
  have "mongo_documents now chunks embeddings name \<noteq> []"
    using assms mongo_documents_length[of now chunks embeddings name] by (cases chunks; cases embeddings) auto
  then show ?thesis
    by (simp add: MongoVectorStore_store_embeddings_def insert_many_def Let_def mongo_documents_length)
qed

lemma mongo_store_empty:
  assumes "chunks = [] \<or> embeddings = []"
  shows "MongoVectorStore_store_embeddings now self coll chunks embeddings name =
         Inl (Exc TypeError ''documents must be a non-empty list'')"
  using assms by (auto simp: MongoVectorStore_store_embeddings_def insert_many_def mongo_documents_def)

lemma str_oid_inj: "inj str_oid"
  by (auto simp: inj_def str_oid_def dest: digits_inj)

lemma redis_store_loop_fst:
  "fst (redis_store_loop fl now p name ps (ids, srv)) = ids @ map (\<lambda>(i, c, e). redis_doc_id p name c i) ps"
  by (induction ps arbitrary: ids srv) (auto simp: Let_def)

lemma redis_store_loop_hashes:
  "hashes (snd (redis_store_loop fl now p name ps (ids, srv))) =
   foldl (\<lambda>h (i, c, e). AList.update (redis_doc_id p name c i) (redis_doc_data fl name (now i) c e) h) (hashes srv) ps"
  by (induction ps arbitrary: ids srv) (auto simp: Let_def hset_def)

lemma redis_store_loop_issued:
  "issued (snd (redis_store_loop fl now p name ps (ids, srv))) =
   issued srv @ map (\<lambda>(i, c, e). HSET (redis_doc_id p name c i)) ps"
  by (induction ps arbitrary: ids srv) (auto simp: Let_def hset_def)

lemma redis_store_loop_indexes:
  "indexes (snd (redis_store_loop fl now p name ps (ids, srv))) = indexes srv"
  by (induction ps arbitrary: ids srv) (auto simp: Let_def hset_def)

lemma map_of_foldl_update:
  assumes "distinct (map kf ps)" "x \<in> set ps"
  shows "map_of (foldl (\<lambda>h y. AList.update (kf y) (vf y) h) h0 ps) (kf x) = Some (vf x)"
  using assms
proof (induction ps rule: rev_induct)
  case Nil
  then show ?case by simp
next
  case (snoc y ps)
  show ?case
  proof (cases "x = y")
    case True
    then show ?thesis by (simp add: update_conv')
  next
    case False
    with snoc.prems have x: "x \<in> set ps" by auto
    from snoc.prems have "kf y \<notin> kf ` set ps" by simp
    with x have ne: "kf x \<noteq> kf y" by (metis imageI)
    from snoc.IH snoc.prems x ne show ?thesis by (simp add: update_conv')
  qed
qed

lemma map_of_foldl_update_other:
  assumes "k \<notin> kf ` set ps"
  shows "map_of (foldl (\<lambda>h y. AList.update (kf y) (vf y) h) h0 ps) k = map_of h0 k"
  using assms by (induction ps rule: rev_induct) (auto simp: update_conv')

lemma distinct_redis_keys:
  "distinct (map (\<lambda>(i, c, e). redis_doc_id p name c i) (enumerate k zs))"
proof -
  have "inj_on (\<lambda>(i, c, e). redis_doc_id p name c i) (set (enumerate k zs))"
  proof (rule inj_onI)
    fix x y assume x: "x \<in> set (enumerate k zs)" and y: "y \<in> set (enumerate k zs)"
      and e: "(case x of (i, c, e) \<Rightarrow> redis_doc_id p name c i) = (case y of (i, c, e) \<Rightarrow> redis_doc_id p name c i)"
    obtain i c e' where xx: "x = (i, c, e')" by (cases x) auto
    obtain j d f where yy: "y = (j, d, f)" by (cases y) auto
    from e xx yy have "i = j" using redis_doc_id_inj by auto
    moreover have "distinct (map fst (enumerate k zs))" by simp
    ultimately show "x = y" using x y xx yy
      by (metis eq_key_imp_eq_value)
  qed
  then show ?thesis by (simp add: distinct_map)
qed

lemma mongo_store_pairs:
  assumes "chunks \<noteq> []" "embeddings \<noteq> []"
  shows "\<exists>ids coll'. MongoVectorStore_store_embeddings now self coll chunks embeddings name = Inr (ids, coll')
           \<and> length ids = min (length chunks) (length embeddings) \<and> distinct ids
           \<and> (\<exists>new. docs coll' = docs coll @ new \<and> length new = min (length chunks) (length embeddings)
                \<and> (\<forall>i<min (length chunks) (length embeddings).
                      snd (new ! i) = mongo_doc name (now i) (chunks ! i) (embeddings ! i)
                      \<and> ids ! i = str_oid (fst (new ! i))))"
proof -
  let ?n = "min (length chunks) (length embeddings)"
  let ?k = "next_oid coll"
  let ?ids = "map str_oid [?k ..< ?k + ?n]"
  let ?new = "zip [?k ..< ?k + ?n] (mongo_documents now chunks embeddings name)"
  have d: "distinct ?ids"
    using str_oid_inj by (simp add: distinct_map inj_on_def inj_def)
  have l: "length ?new = ?n" by (simp add: mongo_documents_length)
  have nth: "\<forall>i<?n. snd (?new ! i) = mongo_doc name (now i) (chunks ! i) (embeddings ! i)
                  \<and> ?ids ! i = str_oid (fst (?new ! i))"
    by (simp add: mongo_documents_length mongo_documents_nth)
  let ?coll' = "\<lparr>docs = docs coll @ ?new, next_oid = ?k + ?n\<rparr>"
  have len: "length ?ids = ?n" by simp
  have dc: "docs ?coll' = docs coll @ ?new" by simp
  have ex: "\<exists>new. docs ?coll' = docs coll @ new \<and> length new = ?n
                \<and> (\<forall>i<?n. snd (new ! i) = mongo_doc name (now i) (chunks ! i) (embeddings ! i)
                      \<and> ?ids ! i = str_oid (fst (new ! i)))"
    using dc l nth by blast
  show ?thesis
    unfolding mongo_store_Inr[OF assms]
    using len d ex by blast
qed

lemma redis_store_pairs:
  "\<exists>ids srv'. RedisVectorStore_store_embeddings fl now self srv chunks embeddings name = (ids, srv')
     \<and> length ids = min (length chunks) (length embeddings) \<and> distinct ids
     \<and> issued srv' = issued srv @ map HSET ids
     \<and> (\<forall>i<min (length chunks) (length embeddings).
           ids ! i = redis_doc_id (rs_prefix self) name (chunks ! i) i
           \<and> map_of (hashes srv') (ids ! i)
               = Some (redis_doc_data fl name (now i) (chunks ! i) (embeddings ! i)))"
proof -
  let ?n = "min (length chunks) (length embeddings)"
  let ?ps = "enumerate 0 (zip chunks embeddings)"
  let ?kf = "\<lambda>(i, c, e). redis_doc_id (rs_prefix self) name c i"
  let ?vf = "\<lambda>(i, c, e). redis_doc_data fl name (now i) c e"
  let ?r = "redis_store_loop fl now (rs_prefix self) name ?ps ([], srv)"
  have ids: "fst ?r = map ?kf ?ps" by (simp add: redis_store_loop_fst)
  have dist: "distinct (map ?kf ?ps)" by (rule distinct_redis_keys)
  have hs: "hashes (snd ?r) = foldl (\<lambda>h y. AList.update (?kf y) (?vf y) h) (hashes srv) ?ps"
    by (simp add: redis_store_loop_hashes split_def)
  have iss: "issued (snd ?r) = issued srv @ map HSET (map ?kf ?ps)"
    by (simp add: redis_store_loop_issued split_def comp_def)
  have nth: "\<forall>i<?n. map ?kf ?ps ! i = redis_doc_id (rs_prefix self) name (chunks ! i) i
               \<and> map_of (hashes (snd ?r)) (map ?kf ?ps ! i)
                   = Some (redis_doc_data fl name (now i) (chunks ! i) (embeddings ! i))"
  proof (intro allI impI)
    fix i assume i: "i < ?n"
    then have el: "?ps ! i = (i, chunks ! i, embeddings ! i)" by (simp add: nth_enumerate_eq)
    have mem: "?ps ! i \<in> set ?ps" using i by (intro nth_mem) simp
    have "map_of (hashes (snd ?r)) (?kf (?ps ! i)) = Some (?vf (?ps ! i))"
      unfolding hs by (rule map_of_foldl_update[OF dist mem])
    then show "map ?kf ?ps ! i = redis_doc_id (rs_prefix self) name (chunks ! i) i
               \<and> map_of (hashes (snd ?r)) (map ?kf ?ps ! i)
                   = Some (redis_doc_data fl name (now i) (chunks ! i) (embeddings ! i))"
      using i el by simp
  qed
  have pair: "RedisVectorStore_store_embeddings fl now self srv chunks embeddings name = (map ?kf ?ps, snd ?r)"
    unfolding RedisVectorStore_store_embeddings_def using ids by (metis prod.collapse)
  have len: "length (map ?kf ?ps) = ?n" by simp
  show ?thesis
    using pair len dist iss nth by blast
qed

lemma digits_small:
  "digits 0 = ''0''" "digits (Suc 0) = ''1''" "digits 1 = ''1''" "digits 2 = ''2''" "digits 3 = ''3''"
  by code_simp+

subsection \<open>Claims on \<^verbatim>\<open>store_embeddings\<close>\<close>

text \<open>
  Claim C4. For non-empty \<open>chunks\<close> and \<open>embeddings\<close> of equal length,
  \<^verbatim>\<open>store_embeddings\<close> stores one record per aligned pair and returns exactly one
  identifier per pair, in the order of the input, on both backends. On MongoDB the call
  returns, the collection grows by the documents of the pairs in order, and the
  \<open>i\<close>-th identifier is that of the \<open>i\<close>-th new document. On Redis the \<open>i\<close>-th
  identifier is the key built from the \<open>i\<close>-th chunk and \<open>i\<close>, one \<^verbatim>\<open>HSET\<close> is sent
  per pair, and afterwards each key holds the record of its pair. The identifiers are
  pairwise distinct.
\<close>

theorem store_embeddings_one_id_per_pair:
  assumes "chunks \<noteq> []" and "length chunks = length embeddings"
  shows "(\<exists>ids coll'. MongoVectorStore_store_embeddings now ms coll chunks embeddings name = Inr (ids, coll')
            \<and> length ids = length chunks \<and> distinct ids
            \<and> (\<exists>new. docs coll' = docs coll @ new \<and> length new = length chunks
                 \<and> (\<forall>i<length chunks.
                       snd (new ! i) = mongo_doc name (now i) (chunks ! i) (embeddings ! i)
                       \<and> ids ! i = str_oid (fst (new ! i)))))
       \<and> (\<exists>ids srv'. RedisVectorStore_store_embeddings fl now rs srv chunks embeddings name = (ids, srv')
            \<and> length ids = length chunks \<and> distinct ids
            \<and> issued srv' = issued srv @ map HSET ids
            \<and> (\<forall>i<length chunks.
                  ids ! i = redis_doc_id (rs_prefix rs) name (chunks ! i) i
                  \<and> map_of (hashes srv') (ids ! i)
                      = Some (redis_doc_data fl name (now i) (chunks ! i) (embeddings ! i))))"
proof -
  from assms have e: "embeddings \<noteq> []" by auto
  from assms have m: "min (length chunks) (length embeddings) = length chunks" by simp
  show ?thesis
    using mongo_store_pairs[OF assms(1) e, of now ms coll name]
      redis_store_pairs[of fl now rs srv chunks embeddings name]
    unfolding m by (rule conjI)
qed

theorem store_embeddings_one_id_per_pair_witness:
  "[ex_chunk_txt, ex_chunk_pdf] \<noteq> []
   \<and> length [ex_chunk_txt, ex_chunk_pdf] = length [[1, 0, 0], [0, 1, 0 :: real]]
   \<and> (\<exists>ids coll'. MongoVectorStore_store_embeddings ex_clock ex_mongo_self ex_empty_collection
                      [ex_chunk_txt, ex_chunk_pdf] [[1, 0, 0], [0, 1, 0]] ''a.txt'' = Inr (ids, coll')
         \<and> length ids = 2 \<and> distinct ids \<and> length (docs coll') = 2)
   \<and> (\<exists>ids srv'. RedisVectorStore_store_embeddings ex_floats ex_clock ex_redis_self ex_empty_server
                      [ex_chunk_txt, ex_chunk_pdf] [[1, 0, 0], [0, 1, 0]] ''a.txt'' = (ids, srv')
         \<and> length ids = 2 \<and> distinct ids \<and> issued srv' = map HSET ids)"
  using store_embeddings_one_id_per_pair[where chunks = "[ex_chunk_txt, ex_chunk_pdf]"
      and embeddings = "[[1, 0, 0], [0, 1, 0]]" and now = ex_clock and ms = ex_mongo_self
      and coll = ex_empty_collection and name = "''a.txt''" and fl = ex_floats
      and rs = ex_redis_self and srv = ex_empty_server]
  by (auto simp: ex_empty_collection_def ex_empty_server_def)

text \<open>
  Claim C5, as stated, fails: \<^verbatim>\<open>store_embeddings\<close> never reads \<^verbatim>\<open>EMBEDDING_DIM\<close>. With
  a configured dimension of 3, a vector of length 2 is stored by both backends and its
  identifier is returned.
\<close>

theorem store_embeddings_dimension_counterexample:
  "int (length [1, 0 :: real]) \<noteq> int (ms_embedding_dim ex_mongo_self)
   \<and> MongoVectorStore_store_embeddings ex_clock ex_mongo_self ex_empty_collection
        [ex_chunk_txt] [[1, 0]] ''a.txt''
      = Inr ([''0''], \<lparr>docs = [(0, mongo_doc ''a.txt'' (ex_clock 0) ex_chunk_txt [1, 0])], next_oid = 1\<rparr>)
   \<and> length [1, 0 :: real] \<noteq> rs_embedding_dim ex_redis_self
   \<and> RedisVectorStore_store_embeddings ex_floats ex_clock ex_redis_self ex_empty_server
        [ex_chunk_txt] [[1, 0]] ''a.txt''
      = ([''doc:a.txt:0:0''],
         ex_empty_server\<lparr>hashes := [(''doc:a.txt:0:0'', redis_doc_data ex_floats ''a.txt'' (ex_clock 0) ex_chunk_txt [1, 0])],
                          issued := [HSET ''doc:a.txt:0:0'']\<rparr>)"
  by (simp add: MongoVectorStore_store_embeddings_def insert_many_def mongo_documents_def
      ex_mongo_self_def ex_empty_collection_def str_oid_def digits_small
      RedisVectorStore_store_embeddings_def ex_redis_self_def ex_empty_server_def hset_def
      redis_doc_id_def py_str_def ex_chunk_txt_def Let_def)

text \<open>
  Claim C5, amended. \<^verbatim>\<open>store_embeddings\<close> makes no dimension check: whatever the
  configured \<^verbatim>\<open>EMBEDDING_DIM\<close> (the result does not depend on it), for non-empty aligned
  input both backends accept the call and persist every vector in its full length,
  neither truncated nor padded (MongoDB the components as given, Redis each component
  cast to float32), recording its actual length as \<^verbatim>\<open>embedding_dimension\<close>.
\<close>

theorem store_embeddings_keeps_any_dimension:
  assumes "chunks \<noteq> []" and "length chunks = length embeddings"
  shows "(\<exists>ids coll'. MongoVectorStore_store_embeddings now ms coll chunks embeddings name = Inr (ids, coll')
            \<and> length ids = length chunks
            \<and> (\<exists>new. docs coll' = docs coll @ new \<and> length new = length chunks
                 \<and> (\<forall>i<length chunks.
                       m_embedding (snd (new ! i)) = embeddings ! i
                       \<and> m_embedding_dimension (snd (new ! i)) = length (embeddings ! i))))
       \<and> (\<exists>ids srv'. RedisVectorStore_store_embeddings fl now rs srv chunks embeddings name = (ids, srv')
            \<and> length ids = length chunks
            \<and> (\<forall>i<length chunks. \<exists>h.
                  map_of (hashes srv') (ids ! i) = Some h
                  \<and> h_embedding h = map (fl_float32 fl) (embeddings ! i)
                  \<and> length (h_embedding h) = length (embeddings ! i)
                  \<and> h_embedding_dimension h = length (embeddings ! i)))
       \<and> MongoVectorStore_store_embeddings now (ms\<lparr>ms_embedding_dim := d\<rparr>) coll chunks embeddings name
           = MongoVectorStore_store_embeddings now ms coll chunks embeddings name
       \<and> RedisVectorStore_store_embeddings fl now (rs\<lparr>rs_embedding_dim := d\<rparr>) srv chunks embeddings name
           = RedisVectorStore_store_embeddings fl now rs srv chunks embeddings name"
proof -
  from assms have e: "embeddings \<noteq> []" by auto
  from assms have m: "min (length chunks) (length embeddings) = length chunks" by simp
  have mongo: "\<exists>ids coll'. MongoVectorStore_store_embeddings now ms coll chunks embeddings name = Inr (ids, coll')
            \<and> length ids = length chunks
            \<and> (\<exists>new. docs coll' = docs coll @ new \<and> length new = length chunks
                 \<and> (\<forall>i<length chunks.
                       m_embedding (snd (new ! i)) = embeddings ! i
                       \<and> m_embedding_dimension (snd (new ! i)) = length (embeddings ! i)))"
  proof -
    from mongo_store_pairs[OF assms(1) e, of now ms coll name] m
    obtain ids coll' new where r: "MongoVectorStore_store_embeddings now ms coll chunks embeddings name = Inr (ids, coll')"
      and l: "length ids = length chunks" and dc: "docs coll' = docs coll @ new" and ln: "length new = length chunks"
      and nth: "\<forall>i<length chunks. snd (new ! i) = mongo_doc name (now i) (chunks ! i) (embeddings ! i)
                       \<and> ids ! i = str_oid (fst (new ! i))"
      by auto
    from nth have "\<forall>i<length chunks. m_embedding (snd (new ! i)) = embeddings ! i
                       \<and> m_embedding_dimension (snd (new ! i)) = length (embeddings ! i)"
      by (simp add: mongo_doc_def)
    with r l dc ln show ?thesis by blast
  qed
  have redis: "\<exists>ids srv'. RedisVectorStore_store_embeddings fl now rs srv chunks embeddings name = (ids, srv')
            \<and> length ids = length chunks
            \<and> (\<forall>i<length chunks. \<exists>h.
                  map_of (hashes srv') (ids ! i) = Some h
                  \<and> h_embedding h = map (fl_float32 fl) (embeddings ! i)
                  \<and> length (h_embedding h) = length (embeddings ! i)
                  \<and> h_embedding_dimension h = length (embeddings ! i))"
  proof -
    from redis_store_pairs[of fl now rs srv chunks embeddings name] m
    obtain ids srv' where r: "RedisVectorStore_store_embeddings fl now rs srv chunks embeddings name = (ids, srv')"
      and l: "length ids = length chunks"
      and nth: "\<forall>i<length chunks. ids ! i = redis_doc_id (rs_prefix rs) name (chunks ! i) i
                  \<and> map_of (hashes srv') (ids ! i)
                      = Some (redis_doc_data fl name (now i) (chunks ! i) (embeddings ! i))"
      by auto
    have sel: "\<And>t c e. h_embedding (redis_doc_data fl name t c e) = map (fl_float32 fl) e
                  \<and> length (h_embedding (redis_doc_data fl name t c e)) = length e
                  \<and> h_embedding_dimension (redis_doc_data fl name t c e) = length e"
      by (simp add: redis_doc_data_def)
    from nth sel have "\<forall>i<length chunks. \<exists>h.
                  map_of (hashes srv') (ids ! i) = Some h
                  \<and> h_embedding h = map (fl_float32 fl) (embeddings ! i)
                  \<and> length (h_embedding h) = length (embeddings ! i)
                  \<and> h_embedding_dimension h = length (embeddings ! i)"
      by blast
    with r l show ?thesis by blast
  qed
  have indep_m: "MongoVectorStore_store_embeddings now (ms\<lparr>ms_embedding_dim := d\<rparr>) coll chunks embeddings name
           = MongoVectorStore_store_embeddings now ms coll chunks embeddings name"
    by (simp add: MongoVectorStore_store_embeddings_def)
  have indep_r: "RedisVectorStore_store_embeddings fl now (rs\<lparr>rs_embedding_dim := d\<rparr>) srv chunks embeddings name
           = RedisVectorStore_store_embeddings fl now rs srv chunks embeddings name"
    by (simp add: RedisVectorStore_store_embeddings_def)
  from mongo redis indep_m indep_r show ?thesis by (intro conjI)
qed

theorem store_embeddings_keeps_any_dimension_witness:
  "[ex_chunk_txt] \<noteq> [] \<and> length [ex_chunk_txt] = length [[1, 0 :: real]]
   \<and> length [1, 0 :: real] \<noteq> ms_embedding_dim ex_mongo_self
   \<and> (\<exists>ids coll'. MongoVectorStore_store_embeddings ex_clock ex_mongo_self ex_empty_collection
                      [ex_chunk_txt] [[1, 0]] ''a.txt'' = Inr (ids, coll')
         \<and> map (m_embedding \<circ> snd) (docs coll') = [[1, 0]])
   \<and> (\<exists>ids srv'. RedisVectorStore_store_embeddings ex_floats ex_clock ex_redis_self ex_empty_server
                      [ex_chunk_txt] [[1, 0]] ''a.txt'' = (ids, srv')
         \<and> map_option (length \<circ> h_embedding) (map_of (hashes srv') (hd ids)) = Some 2)"
proof -
  have h: "[ex_chunk_txt] \<noteq> []" and l: "length [ex_chunk_txt] = length [[1, 0 :: real]]" by simp_all
  from store_embeddings_keeps_any_dimension[OF h l, where now = ex_clock and ms = ex_mongo_self
      and coll = ex_empty_collection and name = "''a.txt''" and fl = ex_floats
      and rs = ex_redis_self and srv = ex_empty_server and d = 3]
  obtain ids coll' new ids2 srv' where
    m: "MongoVectorStore_store_embeddings ex_clock ex_mongo_self ex_empty_collection
                      [ex_chunk_txt] [[1, 0]] ''a.txt'' = Inr (ids, coll')"
    and dc: "docs coll' = docs ex_empty_collection @ new" and ln: "length new = 1"
    and mn: "m_embedding (snd (new ! 0)) = [1, 0]"
    and r: "RedisVectorStore_store_embeddings ex_floats ex_clock ex_redis_self ex_empty_server
                      [ex_chunk_txt] [[1, 0]] ''a.txt'' = (ids2, srv')"
    and li: "length ids2 = 1"
    and rn: "\<exists>h. map_of (hashes srv') (ids2 ! 0) = Some h \<and> length (h_embedding h) = 2"
    by auto
  from ln obtain x where nx: "new = [x]" by (cases new) auto
  from li obtain k where ik: "ids2 = [k]" by (cases ids2) auto
  have a: "map (m_embedding \<circ> snd) (docs coll') = [[1, 0]]"
    using dc nx mn by (simp add: ex_empty_collection_def)
  have b: "map_option (length \<circ> h_embedding) (map_of (hashes srv') (hd ids2)) = Some 2"
    using rn ik by auto
  show ?thesis using m a r b by (simp add: ex_mongo_self_def)
qed

text \<open>
  Claim C10, as stated, fails when the shorter sequence is empty: \<^verbatim>\<open>zip\<close> then yields
  nothing, and \<^verbatim>\<open>insert_many\<close> rejects the empty list of documents, so the MongoDB
  backend raises \<^verbatim>\<open>TypeError\<close>.
\<close>

theorem store_embeddings_empty_side_counterexample:
  "length [ex_chunk_txt] \<noteq> length ([] :: real embedding list)
   \<and> MongoVectorStore_store_embeddings ex_clock ex_mongo_self ex_empty_collection
        [ex_chunk_txt] [] ''a.txt''
      = Inl (Exc TypeError ''documents must be a non-empty list'')"
  by (simp add: MongoVectorStore_store_embeddings_def insert_many_def mongo_documents_def)

text \<open>
  Claim C10, amended. If \<^verbatim>\<open>store_embeddings\<close> is called with non-empty \<open>chunks\<close> and
  \<open>embeddings\<close> of unequal length, neither backend raises: both store, and return
  identifiers for, only the first \<open>min (length chunks) (length embeddings)\<close> aligned pairs;
  the excess elements of the longer sequence are dropped.
\<close>

theorem store_embeddings_unequal_lengths:
  assumes "chunks \<noteq> []" and "embeddings \<noteq> []" and "length chunks \<noteq> length embeddings"
  shows "(\<exists>ids coll'. MongoVectorStore_store_embeddings now ms coll chunks embeddings name = Inr (ids, coll')
            \<and> length ids = min (length chunks) (length embeddings)
            \<and> (\<exists>new. docs coll' = docs coll @ new
                 \<and> length new = min (length chunks) (length embeddings)
                 \<and> (\<forall>i<min (length chunks) (length embeddings).
                       snd (new ! i) = mongo_doc name (now i) (chunks ! i) (embeddings ! i)
                       \<and> ids ! i = str_oid (fst (new ! i)))))
       \<and> (\<exists>ids srv'. RedisVectorStore_store_embeddings fl now rs srv chunks embeddings name = (ids, srv')
            \<and> length ids = min (length chunks) (length embeddings)
            \<and> issued srv' = issued srv @ map HSET ids
            \<and> (\<forall>i<min (length chunks) (length embeddings).
                  ids ! i = redis_doc_id (rs_prefix rs) name (chunks ! i) i
                  \<and> map_of (hashes srv') (ids ! i)
                      = Some (redis_doc_data fl name (now i) (chunks ! i) (embeddings ! i))))"
proof -
  have a: "\<exists>ids coll'. MongoVectorStore_store_embeddings now ms coll chunks embeddings name = Inr (ids, coll')
            \<and> length ids = min (length chunks) (length embeddings)
            \<and> (\<exists>new. docs coll' = docs coll @ new
                 \<and> length new = min (length chunks) (length embeddings)
                 \<and> (\<forall>i<min (length chunks) (length embeddings).
                       snd (new ! i) = mongo_doc name (now i) (chunks ! i) (embeddings ! i)
                       \<and> ids ! i = str_oid (fst (new ! i))))"
    using mongo_store_pairs[OF assms(1) assms(2), of now ms coll name] by blast
  have b: "\<exists>ids srv'. RedisVectorStore_store_embeddings fl now rs srv chunks embeddings name = (ids, srv')
            \<and> length ids = min (length chunks) (length embeddings)
            \<and> issued srv' = issued srv @ map HSET ids
            \<and> (\<forall>i<min (length chunks) (length embeddings).
                  ids ! i = redis_doc_id (rs_prefix rs) name (chunks ! i) i
                  \<and> map_of (hashes srv') (ids ! i)
                      = Some (redis_doc_data fl name (now i) (chunks ! i) (embeddings ! i)))"
    using redis_store_pairs[of fl now rs srv chunks embeddings name] by blast
  from a b show ?thesis by (rule conjI)
qed

theorem store_embeddings_unequal_lengths_witness:
  "[ex_chunk_txt, ex_chunk_pdf] \<noteq> [] \<and> [[1, 0, 0 :: real]] \<noteq> []
   \<and> length [ex_chunk_txt, ex_chunk_pdf] \<noteq> length [[1, 0, 0 :: real]]
   \<and> (\<exists>ids coll'. MongoVectorStore_store_embeddings ex_clock ex_mongo_self ex_empty_collection
                      [ex_chunk_txt, ex_chunk_pdf] [[1, 0, 0]] ''a.txt'' = Inr (ids, coll')
         \<and> length ids = 1 \<and> length (docs coll') = 1)
   \<and> (\<exists>ids srv'. RedisVectorStore_store_embeddings ex_floats ex_clock ex_redis_self ex_empty_server
                      [ex_chunk_txt, ex_chunk_pdf] [[1, 0, 0]] ''a.txt'' = (ids, srv')
         \<and> length ids = 1 \<and> issued srv' = map HSET ids)"
  using store_embeddings_unequal_lengths[where chunks = "[ex_chunk_txt, ex_chunk_pdf]"
      and embeddings = "[[1, 0, 0]]" and now = ex_clock and ms = ex_mongo_self
      and coll = ex_empty_collection and name = "''a.txt''" and fl = ex_floats
      and rs = ex_redis_self and srv = ex_empty_server]
  by (auto simp: ex_empty_collection_def ex_empty_server_def)

subsection \<open>Statistics after a sequence of stores\<close>

lemma mongo_stats_eq:
  "MongoVectorStore_get_statistics self coll =
   \<lparr>total_chunks = length (docs coll),
    by_file_type = (\<lambda>t. if t \<in> set [''pdf'', ''txt'', ''docx'']
                          \<and> 0 < length (filter (\<lambda>x. x = t) (map (m_file_type \<circ> snd) (docs coll)))
                        then Some (length (filter (\<lambda>x. x = t) (map (m_file_type \<circ> snd) (docs coll))))
                        else None)\<rparr>"
proof -
  have c: "\<And>t. count_documents coll (Some t)
            = length (filter (\<lambda>x. x = t) (map (m_file_type \<circ> snd) (docs coll)))"
    by (simp add: count_documents_def find_def filter_map comp_def split_def)
  have n: "count_documents coll None = length (docs coll)"
    by (simp add: count_documents_def find_def)
  show ?thesis
    unfolding MongoVectorStore_get_statistics_def Let_def n
    by (rule statistics.equality) (auto simp: c Let_def fun_eq_iff)
qed

lemma map_snd_enumerate_comp: "map (\<lambda>x. g (snd x)) (enumerate n xs) = map g xs"
  by (induction xs arbitrary: n) simp_all

lemma mongo_documents_file_types:
  "map m_file_type (mongo_documents now chunks embeddings name)
   = map c_file_type (take (min (length chunks) (length embeddings)) chunks)"
proof -
  have "map m_file_type (mongo_documents now chunks embeddings name)
        = map (\<lambda>x. (c_file_type \<circ> fst) (snd x)) (enumerate 0 (zip chunks embeddings))"
    by (simp add: mongo_documents_def mongo_doc_def comp_def split_def)
  also have "\<dots> = map (c_file_type \<circ> fst) (zip chunks embeddings)"
    by (rule map_snd_enumerate_comp)
  also have "\<dots> = map c_file_type (map fst (zip chunks embeddings))" by simp
  finally show ?thesis by (simp only: map_fst_zip_take)
qed

lemma mongo_store_file_types:
  assumes "chunks \<noteq> []" "length chunks = length embeddings"
  shows "\<exists>ids coll'. MongoVectorStore_store_embeddings now self coll chunks embeddings name = Inr (ids, coll')
           \<and> map (m_file_type \<circ> snd) (docs coll')
               = map (m_file_type \<circ> snd) (docs coll) @ map c_file_type chunks"
proof -
  from assms have e: "embeddings \<noteq> []" by auto
  have "map (m_file_type \<circ> snd)
          (zip [next_oid coll ..< next_oid coll + min (length chunks) (length embeddings)]
               (mongo_documents now chunks embeddings name))
        = map m_file_type (mongo_documents now chunks embeddings name)"
    by (simp add: mongo_documents_length flip: map_map)
  then show ?thesis
    unfolding mongo_store_Inr[OF assms(1) e]
    using assms(2) by (simp add: mongo_documents_file_types)
qed

lemma mongo_store_all_file_types:
  assumes "\<forall>(cs, es, n)\<in>set bs. cs \<noteq> [] \<and> length cs = length es"
  shows "map (m_file_type \<circ> snd) (docs (snd (mongo_store_all now self coll bs)))
         = map (m_file_type \<circ> snd) (docs coll) @ map c_file_type (concat (map fst bs))"
  using assms
proof (induction bs arbitrary: coll)
  case Nil
  then show ?case by simp
next
  case (Cons b bs)
  obtain cs es n where b: "b = (cs, es, n)" by (cases b) auto
  from Cons.prems b have wf: "cs \<noteq> []" "length cs = length es"
    and rest: "\<forall>(cs, es, n)\<in>set bs. cs \<noteq> [] \<and> length cs = length es" by auto
  from mongo_store_file_types[OF wf, of now self coll n]
  obtain ids coll' where r: "MongoVectorStore_store_embeddings now self coll cs es n = Inr (ids, coll')"
    and ft: "map (m_file_type \<circ> snd) (docs coll')
               = map (m_file_type \<circ> snd) (docs coll) @ map c_file_type cs" by blast
  obtain more coll'' where m: "mongo_store_all now self coll' bs = (more, coll'')"
    by (cases "mongo_store_all now self coll' bs") auto
  have step: "snd (mongo_store_all now self coll (b # bs)) = coll''"
    by (simp add: b r m)
  have c'': "coll'' = snd (mongo_store_all now self coll' bs)" using m by simp
  have ih: "map (m_file_type \<circ> snd) (docs (snd (mongo_store_all now self coll' bs)))
        = map (m_file_type \<circ> snd) (docs coll') @ map c_file_type (concat (map fst bs))"
    by (rule Cons.IH[OF rest])
  show ?case unfolding step c'' ih ft by (simp add: b)
qed

lemma update_fresh: "k \<notin> fst ` set al \<Longrightarrow> AList.update k v al = al @ [(k, v)]"
  by (induction al) auto

lemma foldl_update_fresh:
  assumes "distinct (map kf ps)" "kf ` set ps \<inter> fst ` set h0 = {}"
  shows "foldl (\<lambda>h y. AList.update (kf y) (vf y) h) h0 ps = h0 @ map (\<lambda>y. (kf y, vf y)) ps"
  using assms
proof (induction ps arbitrary: h0)
  case Nil
  then show ?case by simp
next
  case (Cons y ps)
  from Cons.prems have fr: "kf y \<notin> fst ` set h0" by auto
  have d: "distinct (map kf ps)" using Cons.prems by simp
  have dj: "kf ` set ps \<inter> fst ` set (h0 @ [(kf y, vf y)]) = {}"
    using Cons.prems by auto
  show ?case
    using Cons.IH[OF d dj] by (simp add: update_fresh[OF fr])
qed

lemma redis_store_fst:
  "fst (RedisVectorStore_store_embeddings fl now self srv cs es name)
   = map fst (redis_batch_entries fl now (rs_prefix self) (cs, es, name))"
  by (simp add: RedisVectorStore_store_embeddings_def redis_store_loop_fst redis_batch_entries_def
      split_def comp_def)

lemma distinct_batch_keys: "distinct (map fst (redis_batch_entries fl now p (cs, es, name)))"
  using distinct_redis_keys[of p name 0 "zip cs es"]
  by (simp add: redis_batch_entries_def split_def comp_def)

lemma redis_store_hashes_fresh:
  assumes "set (fst (RedisVectorStore_store_embeddings fl now self srv cs es name)) \<inter> fst ` set (hashes srv) = {}"
  shows "hashes (snd (RedisVectorStore_store_embeddings fl now self srv cs es name))
         = hashes srv @ redis_batch_entries fl now (rs_prefix self) (cs, es, name)"
proof -
  let ?kf = "\<lambda>(i, c, e). redis_doc_id (rs_prefix self) name c i"
  let ?vf = "\<lambda>(i, c, e). redis_doc_data fl name (now i) c e"
  let ?ps = "enumerate 0 (zip cs es)"
  have ent: "redis_batch_entries fl now (rs_prefix self) (cs, es, name) = map (\<lambda>y. (?kf y, ?vf y)) ?ps"
    by (simp add: redis_batch_entries_def split_def)
  have d: "distinct (map ?kf ?ps)" by (rule distinct_redis_keys)
  have "set (map fst (redis_batch_entries fl now (rs_prefix self) (cs, es, name))) = ?kf ` set ?ps"
    unfolding ent by (simp add: image_image)
  then have dj: "?kf ` set ?ps \<inter> fst ` set (hashes srv) = {}"
    using assms unfolding redis_store_fst by simp
  have "hashes (snd (RedisVectorStore_store_embeddings fl now self srv cs es name))
        = foldl (\<lambda>h y. AList.update (?kf y) (?vf y) h) (hashes srv) ?ps"
    by (simp add: RedisVectorStore_store_embeddings_def redis_store_loop_hashes split_def)
  also have "\<dots> = hashes srv @ map (\<lambda>y. (?kf y, ?vf y)) ?ps"
    by (rule foldl_update_fresh[OF d dj])
  finally show ?thesis unfolding ent .
qed

lemma redis_store_loop_info_fault:
  "info_fault (snd (redis_store_loop fl now p name ps (ids, srv))) = info_fault srv"
  by (induction ps arbitrary: ids srv) (auto simp: Let_def hset_def)

lemma redis_store_keeps:
  "indexes (snd (RedisVectorStore_store_embeddings fl now self srv cs es name)) = indexes srv"
  "info_fault (snd (RedisVectorStore_store_embeddings fl now self srv cs es name)) = info_fault srv"
  by (simp_all add: RedisVectorStore_store_embeddings_def redis_store_loop_indexes
      redis_store_loop_info_fault)

lemma redis_store_all_step:
  "redis_store_all fl now self srv ((cs, es, n) # bs)
   = (fst (RedisVectorStore_store_embeddings fl now self srv cs es n)
        @ fst (redis_store_all fl now self (snd (RedisVectorStore_store_embeddings fl now self srv cs es n)) bs),
      snd (redis_store_all fl now self (snd (RedisVectorStore_store_embeddings fl now self srv cs es n)) bs))"
  by (simp add: split_def)

lemma redis_store_all_fst:
  "fst (redis_store_all fl now self srv bs)
   = map fst (concat (map (redis_batch_entries fl now (rs_prefix self)) bs))"
proof (induction bs arbitrary: srv)
  case Nil
  then show ?case by simp
next
  case (Cons b bs)
  obtain cs es n where b: "b = (cs, es, n)" by (cases b) auto
  show ?case
    unfolding b redis_store_all_step
    by (simp add: Cons.IH redis_store_fst)
qed

lemma redis_store_all_keeps:
  "indexes (snd (redis_store_all fl now self srv bs)) = indexes srv
   \<and> info_fault (snd (redis_store_all fl now self srv bs)) = info_fault srv"
proof (induction bs arbitrary: srv)
  case Nil
  then show ?case by simp
next
  case (Cons b bs)
  obtain cs es n where b: "b = (cs, es, n)" by (cases b) auto
  show ?case
    unfolding b redis_store_all_step
    by (simp add: Cons.IH redis_store_keeps)
qed

lemma redis_store_all_hashes:
  assumes "distinct (fst (redis_store_all fl now self srv bs))"
    and "set (fst (redis_store_all fl now self srv bs)) \<inter> fst ` set (hashes srv) = {}"
  shows "hashes (snd (redis_store_all fl now self srv bs))
         = hashes srv @ concat (map (redis_batch_entries fl now (rs_prefix self)) bs)"
  using assms
proof (induction bs arbitrary: srv)
  case Nil
  then show ?case by simp
next
  case (Cons b bs)
  obtain cs es n where b: "b = (cs, es, n)" by (cases b) auto
  let ?E = "redis_batch_entries fl now (rs_prefix self)"
  let ?srv' = "snd (RedisVectorStore_store_embeddings fl now self srv cs es n)"
  have all: "fst (redis_store_all fl now self srv (b # bs))
             = map fst (?E (cs, es, n)) @ map fst (concat (map ?E bs))"
    unfolding redis_store_all_fst by (simp add: b)
  from Cons.prems[unfolded all]
  have d: "distinct (map fst (?E (cs, es, n)) @ map fst (concat (map ?E bs)))"
    and dj: "set (map fst (?E (cs, es, n)) @ map fst (concat (map ?E bs))) \<inter> fst ` set (hashes srv) = {}"
    by blast+
  have fresh: "set (fst (RedisVectorStore_store_embeddings fl now self srv cs es n)) \<inter> fst ` set (hashes srv) = {}"
    unfolding redis_store_fst using dj by (simp only: set_append) blast
  have h': "hashes ?srv' = hashes srv @ ?E (cs, es, n)"
    by (rule redis_store_hashes_fresh[OF fresh])
  have keys': "fst ` set (hashes ?srv') = fst ` set (hashes srv) \<union> set (map fst (?E (cs, es, n)))"
    unfolding h' by (simp add: image_Un)
  have rest_eq: "fst (redis_store_all fl now self ?srv' bs) = map fst (concat (map ?E bs))"
    by (rule redis_store_all_fst)
  have d2: "distinct (fst (redis_store_all fl now self ?srv' bs))"
    unfolding rest_eq using d by simp
  have i1: "set (map fst (?E (cs, es, n))) \<inter> set (map fst (concat (map ?E bs))) = {}"
    using d by (simp only: distinct_append)
  have i2: "(set (map fst (?E (cs, es, n))) \<union> set (map fst (concat (map ?E bs))))
              \<inter> fst ` set (hashes srv) = {}"
    using dj by (simp only: set_append)
  have dj2: "set (fst (redis_store_all fl now self ?srv' bs)) \<inter> fst ` set (hashes ?srv') = {}"
    unfolding rest_eq keys' using i1 i2 by blast
  have "hashes (snd (redis_store_all fl now self ?srv' bs)) = hashes ?srv' @ concat (map ?E bs)"
    by (rule Cons.IH[OF d2 dj2])
  then show ?case
    unfolding b redis_store_all_step by (simp add: h')
qed

subsection \<open>Claims on \<^verbatim>\<open>get_statistics\<close>\<close>

lemma redis_stats_eq:
  assumes "info_fault srv = None" "map_of (indexes srv) (rs_index_name self) = Some d"
  shows "RedisVectorStore_get_statistics self srv =
   ([], \<lparr>total_chunks = length (indexed d srv),
         by_file_type = (\<lambda>t. if t \<in> set [''pdf'', ''txt'', ''docx'']
                          \<and> 0 < length (filter (\<lambda>x. x = t) (map (h_file_type \<circ> snd) (indexed d srv)))
                        then Some (length (filter (\<lambda>x. x = t) (map (h_file_type \<circ> snd) (indexed d srv))))
                        else None)\<rparr>)"
proof -
  have i: "ft_info srv (rs_index_name self) = Inr (length (indexed d srv))"
    using assms by (simp add: ft_info_def)
  have c: "\<And>t. ft_search_total srv (rs_index_name self) t
            = Inr (length (filter (\<lambda>x. x = t) (map (h_file_type \<circ> snd) (indexed d srv))))"
    using assms by (simp add: ft_search_total_def filter_map comp_def split_def)
  have l: "redis_stats_loop srv (rs_index_name self) [''pdf'', ''txt'', ''docx''] Map.empty
           = Inr (\<lambda>t. if t \<in> set [''pdf'', ''txt'', ''docx'']
                          \<and> 0 < length (filter (\<lambda>x. x = t) (map (h_file_type \<circ> snd) (indexed d srv)))
                        then Some (length (filter (\<lambda>x. x = t) (map (h_file_type \<circ> snd) (indexed d srv))))
                        else None)"
    by (auto simp: c fun_eq_iff)
  show ?thesis
    unfolding RedisVectorStore_get_statistics_def i l by simp
qed

lemma batch_entries_file_types:
  "map (h_file_type \<circ> snd) (redis_batch_entries fl now p (cs, es, n))
   = map c_file_type (take (min (length cs) (length es)) cs)"
proof -
  have "map (h_file_type \<circ> snd) (redis_batch_entries fl now p (cs, es, n))
        = map (\<lambda>x. (c_file_type \<circ> fst) (snd x)) (enumerate 0 (zip cs es))"
    by (simp add: redis_batch_entries_def redis_doc_data_def comp_def split_def)
  also have "\<dots> = map (c_file_type \<circ> fst) (zip cs es)"
    by (rule map_snd_enumerate_comp)
  also have "\<dots> = map c_file_type (map fst (zip cs es))" by simp
  finally show ?thesis by (simp only: map_fst_zip_take)
qed

lemma batch_entries_indexable:
  assumes "(k, h) \<in> set (redis_batch_entries fl now p (cs, es, n))"
  shows "take (length p) k = p \<and> (\<exists>e\<in>set es. length (h_embedding h) = length e)"
proof -
  from assms obtain i c e where m: "(i, c, e) \<in> set (enumerate 0 (zip cs es))"
    and k: "k = redis_doc_id p n c i" and h: "h = redis_doc_data fl n (now i) c e"
    by (auto simp: redis_batch_entries_def)
  from m have "(c, e) \<in> set (zip cs es)"
    by (force simp: in_set_enumerate_eq in_set_zip)
  then have "e \<in> set es" by (rule set_zip_rightD)
  then have "\<exists>e'\<in>set es. length (h_embedding h) = length e'"
    using h by (auto simp: redis_doc_data_def)
  moreover have "take (length p) k = p" using k by (simp add: redis_doc_id_def)
  ultimately show ?thesis by simp
qed


lemma all_entries_indexed:
  assumes "\<forall>(cs, es, n)\<in>set bs. \<forall>e\<in>set es. length e = dm"
  shows "filter (\<lambda>(key, h). take (length p) key = p \<and> length (h_embedding h) = dm)
           (concat (map (redis_batch_entries fl now p) bs))
         = concat (map (redis_batch_entries fl now p) bs)"
proof (rule filter_True, clarify)
  fix k h assume "(k, h) \<in> set (concat (map (redis_batch_entries fl now p) bs))"
  then obtain b where b: "b \<in> set bs" and m: "(k, h) \<in> set (redis_batch_entries fl now p b)" by auto
  obtain cs es n where bb: "b = (cs, es, n)" by (cases b) auto
  from batch_entries_indexable[OF m[unfolded bb]]
  have "take (length p) k = p" and "\<exists>e\<in>set es. length (h_embedding h) = length e" by simp_all
  moreover from assms b bb have "\<forall>e\<in>set es. length e = dm" by auto
  ultimately show "take (length p) k = p \<and> length (h_embedding h) = dm" by auto
qed

lemma all_entries_file_types:
  assumes "\<forall>(cs, es, n)\<in>set bs. length cs = length es"
  shows "map (h_file_type \<circ> snd) (concat (map (redis_batch_entries fl now p) bs))
         = map c_file_type (concat (map fst bs))"
  using assms
proof (induction bs)
  case Nil
  then show ?case by simp
next
  case (Cons b bs)
  obtain cs es n where bb: "b = (cs, es, n)" by (cases b) auto
  from Cons.prems bb have l: "length cs = length es"
    and rest: "\<forall>(cs, es, n)\<in>set bs. length cs = length es" by auto
  have "map (h_file_type \<circ> snd) (redis_batch_entries fl now p (cs, es, n)) = map c_file_type cs"
    using l by (simp add: batch_entries_file_types)
  with Cons.IH[OF rest] show ?case by (simp add: bb comp_def)
qed

text \<open>
  What \<^verbatim>\<open>get_statistics\<close> returns after a sequence of \<^verbatim>\<open>store_embeddings\<close> calls on an
  empty store, the calls on non-empty aligned input whose chunks have types among \<open>pdf\<close>,
  \<open>txt\<close> and \<open>docx\<close>. MongoDB counts every chunk stored; Redis does when every vector
  has the dimension of the index and the keys of the calls are pairwise distinct.
\<close>

lemma known_types_only:
  assumes "\<forall>(cs, es, n)\<in>set batches. \<forall>c\<in>set cs. c_file_type c \<in> {''pdf'', ''txt'', ''docx''}"
  shows "(\<lambda>t. if t \<in> set [''pdf'', ''txt'', ''docx'']
                  \<and> 0 < length (filter (\<lambda>c. c_file_type c = t) (concat (map fst batches)))
               then Some (length (filter (\<lambda>c. c_file_type c = t) (concat (map fst batches))))
               else None)
         = (\<lambda>t. if 0 < length (filter (\<lambda>c. c_file_type c = t) (concat (map fst batches)))
               then Some (length (filter (\<lambda>c. c_file_type c = t) (concat (map fst batches))))
               else None)"
proof -
  let ?all = "concat (map fst batches)"
  let ?cnt = "\<lambda>t. length (filter (\<lambda>c. c_file_type c = t) ?all)"
  have known: "\<And>t. t \<notin> set [''pdf'', ''txt'', ''docx''] \<Longrightarrow> ?cnt t = 0"
  proof -
    fix t :: string assume t: "t \<notin> set [''pdf'', ''txt'', ''docx'']"
    have "\<forall>c\<in>set ?all. c_file_type c \<noteq> t"
    proof
      fix c assume "c \<in> set ?all"
      then obtain b where b: "b \<in> set batches" and c: "c \<in> set (fst b)" by auto
      obtain cs es n where bb: "b = (cs, es, n)" by (cases b) auto
      from assms b bb c have "c_file_type c \<in> {''pdf'', ''txt'', ''docx''}" by auto
      with t show "c_file_type c \<noteq> t" by auto
    qed
    then show "?cnt t = 0" by (simp add: filter_empty_conv)
  qed
  show ?thesis
  proof
    fix t show "(if t \<in> set [''pdf'', ''txt'', ''docx''] \<and> 0 < ?cnt t then Some (?cnt t) else None)
               = (if 0 < ?cnt t then Some (?cnt t) else None)"
      using known[of t] by (cases "t \<in> set [''pdf'', ''txt'', ''docx'']") simp_all
  qed
qed

lemma mongo_statistics_after_stores:
  assumes wf: "\<forall>(cs, es, n)\<in>set batches. cs \<noteq> [] \<and> length cs = length es"
    and types: "\<forall>(cs, es, n)\<in>set batches. \<forall>c\<in>set cs. c_file_type c \<in> {''pdf'', ''txt'', ''docx''}"
    and empty: "docs coll = []"
  shows "MongoVectorStore_get_statistics ms (snd (mongo_store_all now ms coll batches))
           = \<lparr>total_chunks = length (concat (map fst batches)),
              by_file_type = (\<lambda>t. if 0 < length (filter (\<lambda>c. c_file_type c = t) (concat (map fst batches)))
                                  then Some (length (filter (\<lambda>c. c_file_type c = t) (concat (map fst batches))))
                                  else None)\<rparr>"
proof -
  let ?all = "concat (map fst batches)"
  let ?cnt = "\<lambda>t. length (filter (\<lambda>c. c_file_type c = t) ?all)"
  have cnt_map: "\<And>t. length (filter (\<lambda>x. x = t) (map c_file_type ?all)) = ?cnt t"
    by (simp add: filter_map comp_def)
  note by_eq = known_types_only[OF types]
  have mt: "map (m_file_type \<circ> snd) (docs (snd (mongo_store_all now ms coll batches)))
            = map c_file_type ?all"
    using mongo_store_all_file_types[OF wf, of now ms coll] empty by simp
  have ml: "length (docs (snd (mongo_store_all now ms coll batches))) = length ?all"
    using arg_cong[OF mt, of length] by (simp only: length_map)
  show ?thesis
    unfolding mongo_stats_eq mt ml cnt_map by_eq ..
qed

lemma redis_statistics_after_stores:
  assumes wf: "\<forall>(cs, es, n)\<in>set batches. length cs = length es"
    and types: "\<forall>(cs, es, n)\<in>set batches. \<forall>c\<in>set cs. c_file_type c \<in> {''pdf'', ''txt'', ''docx''}"
    and dims: "\<forall>(cs, es, n)\<in>set batches. \<forall>e\<in>set es. length e = rs_embedding_dim rs"
    and empty: "hashes srv = []"
    and index: "info_fault srv = None"
      "map_of (indexes srv) (rs_index_name rs)
         = Some \<lparr>ix_prefix = rs_prefix rs, ix_dim = rs_embedding_dim rs\<rparr>"
    and keys: "distinct (fst (redis_store_all fl now rs srv batches))"
  shows "RedisVectorStore_get_statistics rs (snd (redis_store_all fl now rs srv batches))
           = ([], \<lparr>total_chunks = length (concat (map fst batches)),
                   by_file_type = (\<lambda>t. if 0 < length (filter (\<lambda>c. c_file_type c = t) (concat (map fst batches)))
                                  then Some (length (filter (\<lambda>c. c_file_type c = t) (concat (map fst batches))))
                                  else None)\<rparr>)"
proof -
  let ?all = "concat (map fst batches)"
  let ?cnt = "\<lambda>t. length (filter (\<lambda>c. c_file_type c = t) ?all)"
  have cnt_map: "\<And>t. length (filter (\<lambda>x. x = t) (map c_file_type ?all)) = ?cnt t"
    by (simp add: filter_map comp_def)
  note by_eq = known_types_only[OF types]
  let ?srv' = "snd (redis_store_all fl now rs srv batches)"
  let ?d = "\<lparr>ix_prefix = rs_prefix rs, ix_dim = rs_embedding_dim rs\<rparr>"
  let ?E = "concat (map (redis_batch_entries fl now (rs_prefix rs)) batches)"
  have dj: "set (fst (redis_store_all fl now rs srv batches)) \<inter> fst ` set (hashes srv) = {}"
    using empty by simp
  have hs: "hashes ?srv' = ?E"
    using redis_store_all_hashes[OF keys dj] empty by simp
  have ix: "indexed ?d ?srv' = ?E"
    unfolding indexed_def hs using all_entries_indexed[OF dims, of "rs_prefix rs" fl now] by simp
  have rt: "map (h_file_type \<circ> snd) (indexed ?d ?srv') = map c_file_type ?all"
    unfolding ix by (rule all_entries_file_types[OF wf])
  have rl: "length (indexed ?d ?srv') = length ?all"
    using arg_cong[OF rt, of length] by (simp only: length_map)
  have keep: "info_fault ?srv' = None" "map_of (indexes ?srv') (rs_index_name rs) = Some ?d"
    using redis_store_all_keeps[of fl now rs srv batches] index by simp_all
  show ?thesis
    unfolding redis_stats_eq[OF keep] rt rl cnt_map by_eq ..
qed

text \<open>
  Claim C9 on a document stored twice. The key of a Redis record is built from the
  document name, the chunk index and the position in the call (the source calls it a
  unique key), so the second call overwrites the record of the first: after two calls
  that store one \<open>txt\<close> chunk each under the name \<open>a.txt\<close>, both return an identifier,
  MongoDB holds and counts two chunks, Redis holds and counts one.
\<close>

theorem redis_statistics_after_restore:
  "fst (mongo_store_all ex_clock ex_mongo_self ex_empty_collection
          [([ex_chunk_txt], [[1, 0, 0]], ''a.txt''), ([ex_chunk_txt], [[1, 0, 0]], ''a.txt'')])
     = [''0'', ''1'']
   \<and> fst (redis_store_all ex_floats ex_clock ex_redis_self ex_indexed_server
          [([ex_chunk_txt], [[1, 0, 0]], ''a.txt''), ([ex_chunk_txt], [[1, 0, 0]], ''a.txt'')])
     = [''doc:a.txt:0:0'', ''doc:a.txt:0:0'']
   \<and> total_chunks (MongoVectorStore_get_statistics ex_mongo_self
       (snd (mongo_store_all ex_clock ex_mongo_self ex_empty_collection
          [([ex_chunk_txt], [[1, 0, 0]], ''a.txt''), ([ex_chunk_txt], [[1, 0, 0]], ''a.txt'')]))) = 2
   \<and> total_chunks (snd (RedisVectorStore_get_statistics ex_redis_self
       (snd (redis_store_all ex_floats ex_clock ex_redis_self ex_indexed_server
          [([ex_chunk_txt], [[1, 0, 0]], ''a.txt''), ([ex_chunk_txt], [[1, 0, 0]], ''a.txt'')])))) = 1
   \<and> by_file_type (snd (RedisVectorStore_get_statistics ex_redis_self
       (snd (redis_store_all ex_floats ex_clock ex_redis_self ex_indexed_server
          [([ex_chunk_txt], [[1, 0, 0]], ''a.txt''), ([ex_chunk_txt], [[1, 0, 0]], ''a.txt'')]))))
       ''txt'' = Some 1"
  by (simp add: MongoVectorStore_store_embeddings_def insert_many_def mongo_documents_def
      MongoVectorStore_get_statistics_def count_documents_def find_def mongo_doc_def
      ex_mongo_self_def ex_empty_collection_def str_oid_def digits_small
      RedisVectorStore_store_embeddings_def RedisVectorStore_get_statistics_def
      ft_info_def ft_search_total_def indexed_def redis_doc_data_def
      ex_redis_self_def ex_indexed_server_def hset_def
      redis_doc_id_def py_str_def ex_chunk_txt_def Let_def)

subsection \<open>Claims on \<^verbatim>\<open>similarity_search\<close>\<close>

lemma mongo_similarity_aligned:
  "length v = length q \<Longrightarrow> mongo_similarity fl q v = Inr (spec_cosine fl q v)"
  by (simp add: mongo_similarity_def np_dot_def spec_cosine_def)

lemma mongo_similarity_mismatch:
  "length v \<noteq> length q \<Longrightarrow> mongo_similarity fl q v = Inl (Exc ValueError ''shapes not aligned'')"
  by (auto simp: mongo_similarity_def np_dot_def)


lemma mongo_score_loop_mismatch:
  assumes "\<exists>od\<in>set cands. length (m_embedding (snd od)) \<noteq> length q"
  shows "mongo_score_loop fl q cands = Inl (Exc ValueError ''shapes not aligned'')"
  using assms
proof (induction cands)
  case Nil
  then show ?case by simp
next
  case (Cons od cands)
  show ?case
  proof (cases "length (m_embedding (snd od)) = length q")
    case True
    with Cons.prems have "\<exists>od\<in>set cands. length (m_embedding (snd od)) \<noteq> length q" by auto
    from Cons.IH[OF this] show ?thesis by (simp add: mongo_similarity_aligned[OF True])
  next
    case False
    then show ?thesis by (simp add: mongo_similarity_mismatch)
  qed
qed

lemma mongo_similarity_search_mismatch:
  assumes "\<exists>od\<in>set (find coll (truthy_filter f)). length (m_embedding (snd od)) \<noteq> length q"
  shows "MongoVectorStore_similarity_search fl self coll q top_k f
         = Inl (Exc ValueError ''shapes not aligned'')"
proof -
  from assms have "find coll (truthy_filter f) \<noteq> []" by auto
  then show ?thesis
    by (simp add: MongoVectorStore_similarity_search_def Let_def mongo_score_loop_mismatch[OF assms])
qed

lemma py_slice_to_take: "0 \<le> k \<Longrightarrow> py_slice_to xs k = take (nat k) xs"
  by (simp add: py_slice_to_def)

lemma redis_output_loop_Inr:
  "redis_output_loop fl ds = Inr out \<Longrightarrow>
     length out = length ds
     \<and> map similarity_score out = map (\<lambda>d. fl_one_minus fl (the (d_score d))) ds
     \<and> map r_id out = map d_id ds"
proof (induction ds arbitrary: out)
  case Nil
  then show ?case by simp
next
  case (Cons d ds)
  from Cons.prems obtain p s out' where p: "d_page_number d = Some p" and s: "d_score d = Some s"
    and r: "redis_output_loop fl ds = Inr out'"
    by (auto split: option.splits sum.splits)
  from Cons.IH[OF r] Cons.prems p s r show ?case by auto
qed

lemma redis_query_shape:
  "snd (q_paging (redis_query top_k f)) = top_k" "q_sort_by (redis_query top_k f) = Some ''score''"
  by (simp_all add: redis_query_def Let_def)

lemma redis_search_absorbs:
  assumes "search (rs_index_name rs) (redis_query top_k f) (map (fl_float32 fl) q) = Inl e"
  shows "RedisVectorStore_similarity_search fl search rs q top_k f
         = ([(ERROR, ''Search error: '' @ exc_msg e)], [])"
  using assms by (simp add: RedisVectorStore_similarity_search_def Let_def)





text \<open>
  Claim C2 on a corpus that \<^verbatim>\<open>store_embeddings\<close> produces. The call that stores one
  vector of length 2 is accepted and leaves the collection \<open>ex_collection_short\<close>; on it
  \<^verbatim>\<open>MongoVectorStore.similarity_search\<close> with a query of length 3 and \<open>top_k = 1\<close> returns
  no list at all: \<^verbatim>\<open>np.dot\<close> raises \<^verbatim>\<open>ValueError\<close> and the method has no handler.
\<close>

theorem mongo_similarity_search_returns_no_list:
  "MongoVectorStore_store_embeddings ex_clock ex_mongo_self ex_empty_collection
       [ex_chunk_txt] [[1, 0]] ''a.txt''
     = Inr ([''0''], ex_collection_short)
   \<and> MongoVectorStore_similarity_search fl ex_mongo_self ex_collection_short [1, 0, 0] 1 None
     = Inl (Exc ValueError ''shapes not aligned'')"
  by (simp add: MongoVectorStore_store_embeddings_def insert_many_def mongo_documents_def
      ex_empty_collection_def str_oid_def digits_small
      MongoVectorStore_similarity_search_def find_def truthy_filter_def
      ex_collection_short_def mongo_doc_def mongo_similarity_def np_dot_def Let_def)

text \<open>
  Claim C3 fails on the MongoDB backend: its \<^verbatim>\<open>similarity_search\<close> has no
  \<^verbatim>\<open>try\<close>, so the \<^verbatim>\<open>ValueError\<close> that \<^verbatim>\<open>np.dot\<close> raises for a query of length 3
  against a stored vector of length 2 leaves the method. The Redis backend, whose search
  runs in a \<^verbatim>\<open>try\<close>, logs the failure of the engine and returns the empty list.
\<close>

theorem mongo_similarity_search_raises:
  "MongoVectorStore_similarity_search fl ex_mongo_self ex_collection_short [1, 0, 0] 5 None
     = Inl (Exc ValueError ''shapes not aligned'')
   \<and> RedisVectorStore_similarity_search fl ex_engine_down ex_redis_self [1, 0, 0] 5 None
     = ([(ERROR, ''Search error: Connection refused'')], [])"
  by (simp add: MongoVectorStore_similarity_search_def find_def truthy_filter_def
      ex_collection_short_def mongo_doc_def mongo_similarity_def np_dot_def
      RedisVectorStore_similarity_search_def ex_engine_down_def Let_def)

subsection \<open>Claims on the constructors\<close>

lemma digit_char_values:
  "digit_char 0 = CHR ''0''" "digit_char 1 = CHR ''1''" "digit_char 2 = CHR ''2''"
  "digit_char 3 = CHR ''3''" "digit_char 4 = CHR ''4''" "digit_char 5 = CHR ''5''"
  "digit_char 6 = CHR ''6''" "digit_char 7 = CHR ''7''" "digit_char 8 = CHR ''8''"
  "digit_char 9 = CHR ''9''"
  by code_simp+

lemma digits_port: "digits 6379 = ''6379''"
  by (simp add: digits.simps digit_char_values)

lemma py_str_examples: "py_str 6379 = ''6379''" "py_str 0 = ''0''"
  by (simp_all add: py_str_def digits_port digits_small)

lemma mongo_init_failure:
  assumes "build_uri cfg = Inl e \<or> (\<exists>uri. build_uri cfg = Inr uri \<and> MongoClient uri = Some e)"
  shows "\<exists>lg m. MongoVectorStore_init MongoClient cfg = (lg, Inl (Exc DatabaseConnectionError m))"
  using assms by (auto simp: MongoVectorStore_init_def Let_def)

lemma mongo_init_success:
  assumes "build_uri cfg = Inr uri" "MongoClient uri = None"
  shows "\<exists>lg. MongoVectorStore_init MongoClient cfg
           = (lg, Inr \<lparr>ms_embedding_dim = EMBEDDING_DIM cfg, ms_is_connected = True\<rparr>)"
  using assms by (simp add: MongoVectorStore_init_def Let_def)

lemma redis_init_connection_error:
  assumes "ping_fault srv = Some e" "exc_cls e = RedisConnectionError"
  shows "\<exists>lg m. RedisVectorStore_init cfg srv = (lg, srv, Inl (Exc DatabaseConnectionError m))"
  using assms by (simp add: RedisVectorStore_init_def ping_def redis_init_handler_def Let_def)

lemma redis_init_other_error:
  assumes "ping_fault srv = Some e" "exc_cls e \<noteq> RedisConnectionError"
  shows "\<exists>lg self. RedisVectorStore_init cfg srv = (lg, srv, Inr self) \<and> \<not> rs_is_connected self"
  using assms by (simp add: RedisVectorStore_init_def ping_def redis_init_handler_def Let_def)

text \<open>
  Claim C7 fails on the Redis constructor for a connection failure that is no
  \<^verbatim>\<open>redis.exceptions.ConnectionError\<close>: when \<^verbatim>\<open>ping()\<close> raises
  \<^verbatim>\<open>redis.exceptions.TimeoutError\<close> (the host does not answer), the handler for
  \<^verbatim>\<open>Exception\<close> logs the failure and raises nothing, and the constructor returns the
  object, unconnected. The handler for \<^verbatim>\<open>ConnectionError\<close> above it and the
  \<^verbatim>\<open>except Exception\<close> of the MongoDB constructor both raise
  \<^verbatim>\<open>DatabaseConnectionError\<close>.
\<close>

theorem redis_init_swallows_timeout:
  "RedisVectorStore_init ex_config ex_server_timeout
   = ([(ERROR, ''Redis connection failed: localhost:6379 Timeout connecting to server'')],
      ex_server_timeout,
      Inr \<lparr>rs_embedding_dim = 3, rs_index_name = ''idx'', rs_prefix = ''doc:'',
           rs_is_connected = False\<rparr>)"
  by (simp add: RedisVectorStore_init_def ping_def redis_init_handler_def Let_def
      ex_config_def ex_server_timeout_def py_str_examples)

lemma create_index_absent:
  assumes "info_fault srv = None" "map_of (indexes srv) (rs_index_name self) = None"
  shows "RedisVectorStore_create_index self srv
         = ([(INFO, ''Created new search index'')],
            srv\<lparr>issued := issued srv @ [FT_CREATE (rs_index_name self)],
                indexes := indexes srv @ [(rs_index_name self,
                     \<lparr>ix_prefix = rs_prefix self, ix_dim = rs_embedding_dim self\<rparr>)]\<rparr>,
            Inr ())"
  using assms
  by (simp add: RedisVectorStore_create_index_def ft_info_def ft_create_index_def Let_def)

lemma create_index_present:
  assumes "info_fault srv = None" "map_of (indexes srv) (rs_index_name self) = Some d"
  shows "RedisVectorStore_create_index self srv = ([(ERROR, ''  Index already exists'')], srv, Inr ())"
  using assms
  by (simp add: RedisVectorStore_create_index_def ft_info_def)

lemma redis_init_reachable:
  assumes "ping_fault srv = None"
  shows "RedisVectorStore_init cfg srv
         = (case RedisVectorStore_create_index
                   \<lparr>rs_embedding_dim = EMBEDDING_DIM cfg, rs_index_name = REDIS_INDEX_NAME cfg,
                    rs_prefix = REDIS_DOC_PREFIX cfg, rs_is_connected = True\<rparr> srv of
              (lg, srv', Inl err) \<Rightarrow>
                 redis_init_handler cfg err lg srv'
                   \<lparr>rs_embedding_dim = EMBEDDING_DIM cfg, rs_index_name = REDIS_INDEX_NAME cfg,
                    rs_prefix = REDIS_DOC_PREFIX cfg, rs_is_connected = True\<rparr>
            | (lg, srv', Inr u) \<Rightarrow>
                 (lg @ [(INFO, ''Redis vector store initialized: '' @ REDIS_HOST cfg @ '':''
                                 @ py_str (REDIS_PORT cfg) @ ''/'' @ py_str (REDIS_DB cfg))],
                  srv',
                  Inr \<lparr>rs_embedding_dim = EMBEDDING_DIM cfg, rs_index_name = REDIS_INDEX_NAME cfg,
                       rs_prefix = REDIS_DOC_PREFIX cfg, rs_is_connected = True\<rparr>))"
  using assms by (simp add: RedisVectorStore_init_def ping_def Let_def split: prod.splits sum.splits)

text \<open>
  With a server that answers, connecting twice against one index name creates the index
  at most once: the second constructor finds the index, logs that it exists, leaves the
  server as it is and returns the object.
\<close>

lemma index_creation_idempotent:
  assumes "ping_fault srv = None" and "info_fault srv = None"
    and "REDIS_INDEX_NAME cfg2 = REDIS_INDEX_NAME cfg1"
  shows "\<exists>lg1 srv1 self1 lg2 self2.
           RedisVectorStore_init cfg1 srv = (lg1, srv1, Inr self1)
         \<and> RedisVectorStore_init cfg2 srv1 = (lg2, srv1, Inr self2)
         \<and> (ERROR, ''  Index already exists'') \<in> set lg2
         \<and> map_of (indexes srv1) (REDIS_INDEX_NAME cfg1) \<noteq> None
         \<and> length (filter (\<lambda>c. c = FT_CREATE (REDIS_INDEX_NAME cfg1)) (issued srv1))
             \<le> Suc (length (filter (\<lambda>c. c = FT_CREATE (REDIS_INDEX_NAME cfg1)) (issued srv)))"
proof (cases "map_of (indexes srv) (REDIS_INDEX_NAME cfg1)")
  case None
  let ?self1 = "\<lparr>rs_embedding_dim = EMBEDDING_DIM cfg1, rs_index_name = REDIS_INDEX_NAME cfg1,
                    rs_prefix = REDIS_DOC_PREFIX cfg1, rs_is_connected = True\<rparr>"
  let ?self2 = "\<lparr>rs_embedding_dim = EMBEDDING_DIM cfg2, rs_index_name = REDIS_INDEX_NAME cfg2,
                    rs_prefix = REDIS_DOC_PREFIX cfg2, rs_is_connected = True\<rparr>"
  let ?d = "\<lparr>ix_prefix = REDIS_DOC_PREFIX cfg1, ix_dim = EMBEDDING_DIM cfg1\<rparr>"
  let ?srv1 = "srv\<lparr>issued := issued srv @ [FT_CREATE (REDIS_INDEX_NAME cfg1)],
                    indexes := indexes srv @ [(REDIS_INDEX_NAME cfg1, ?d)]\<rparr>"
  have c1: "RedisVectorStore_create_index ?self1 srv
            = ([(INFO, ''Created new search index'')], ?srv1, Inr ())"
    using create_index_absent[of srv ?self1] assms(2) None by simp
  have i1: "\<exists>lg1. RedisVectorStore_init cfg1 srv = (lg1, ?srv1, Inr ?self1)"
    unfolding redis_init_reachable[OF assms(1)] c1 by simp
  have p1: "ping_fault ?srv1 = None" "info_fault ?srv1 = None" using assms by simp_all
  have m1: "map_of (indexes ?srv1) (rs_index_name ?self2) = Some ?d"
    using None assms(3) by (simp add: map_add_def)
  have c2: "RedisVectorStore_create_index ?self2 ?srv1 = ([(ERROR, ''  Index already exists'')], ?srv1, Inr ())"
    by (rule create_index_present[OF p1(2) m1])
  have i2: "\<exists>lg2. RedisVectorStore_init cfg2 ?srv1 = (lg2, ?srv1, Inr ?self2)
                  \<and> (ERROR, ''  Index already exists'') \<in> set lg2"
    unfolding redis_init_reachable[OF p1(1)] c2 by simp
  have m: "map_of (indexes ?srv1) (REDIS_INDEX_NAME cfg1) \<noteq> None"
    using m1 assms(3) by simp
  have n: "length (filter (\<lambda>c. c = FT_CREATE (REDIS_INDEX_NAME cfg1)) (issued ?srv1))
             \<le> Suc (length (filter (\<lambda>c. c = FT_CREATE (REDIS_INDEX_NAME cfg1)) (issued srv)))"
    by simp
  from i1 i2 m n show ?thesis by blast
next
  case (Some d)
  let ?self1 = "\<lparr>rs_embedding_dim = EMBEDDING_DIM cfg1, rs_index_name = REDIS_INDEX_NAME cfg1,
                    rs_prefix = REDIS_DOC_PREFIX cfg1, rs_is_connected = True\<rparr>"
  let ?self2 = "\<lparr>rs_embedding_dim = EMBEDDING_DIM cfg2, rs_index_name = REDIS_INDEX_NAME cfg2,
                    rs_prefix = REDIS_DOC_PREFIX cfg2, rs_is_connected = True\<rparr>"
  have c1: "RedisVectorStore_create_index ?self1 srv = ([(ERROR, ''  Index already exists'')], srv, Inr ())"
    using create_index_present[of srv ?self1 d] assms(2) Some by simp
  have c2: "RedisVectorStore_create_index ?self2 srv = ([(ERROR, ''  Index already exists'')], srv, Inr ())"
    using create_index_present[of srv ?self2 d] assms(2,3) Some by simp
  have i1: "\<exists>lg1. RedisVectorStore_init cfg1 srv = (lg1, srv, Inr ?self1)"
    unfolding redis_init_reachable[OF assms(1)] c1 by simp
  have i2: "\<exists>lg2. RedisVectorStore_init cfg2 srv = (lg2, srv, Inr ?self2)
                  \<and> (ERROR, ''  Index already exists'') \<in> set lg2"
    unfolding redis_init_reachable[OF assms(1)] c2 by simp
  have m: "map_of (indexes srv) (REDIS_INDEX_NAME cfg1) \<noteq> None" using Some by simp
  have n: "length (filter (\<lambda>c. c = FT_CREATE (REDIS_INDEX_NAME cfg1)) (issued srv))
             \<le> Suc (length (filter (\<lambda>c. c = FT_CREATE (REDIS_INDEX_NAME cfg1)) (issued srv)))"
    by simp
  from i1 i2 m n show ?thesis by blast
qed

lemma failed_probe_issues_create:
  assumes "ping_fault srv = None" "info_fault srv = Some e"
    "map_of (indexes srv) (REDIS_INDEX_NAME cfg) = Some d"
  shows "\<exists>lg self. RedisVectorStore_init cfg srv
           = (lg, srv\<lparr>issued := issued srv @ [FT_CREATE (REDIS_INDEX_NAME cfg)]\<rparr>, Inr self)"
  using assms
  by (simp add: RedisVectorStore_init_def ping_def RedisVectorStore_create_index_def
      ft_info_def ft_create_index_def redis_init_handler_def Let_def)


text \<open>
  Claim C8 fails when the probe of the second connection raises for another reason than
  a missing index. The first constructor creates the index \<open>idx\<close> on the empty server.
  On that server, with \<^verbatim>\<open>info()\<close> raising a connection error, the bare \<^verbatim>\<open>except\<close> of
  \<^verbatim>\<open>_create_index\<close> takes the index for absent and sends a second \<^verbatim>\<open>FT.CREATE\<close>; the
  server rejects it, and the constructor logs the rejection as a failed connection and
  returns the object.
\<close>

theorem second_connect_reissues_create:
  "RedisVectorStore_init ex_config ex_empty_server
     = ([(INFO, ''Created new search index''),
         (INFO, ''Redis vector store initialized: localhost:6379/0'')],
        ex_indexed_server,
        Inr \<lparr>rs_embedding_dim = 3, rs_index_name = ''idx'', rs_prefix = ''doc:'',
             rs_is_connected = True\<rparr>)
   \<and> ex_server_probe_fails
     = ex_indexed_server\<lparr>info_fault := Some (Exc RedisConnectionError ''Connection reset by peer'')\<rparr>
   \<and> RedisVectorStore_init ex_config ex_server_probe_fails
     = ([(ERROR, ''Redis connection failed: localhost:6379 Index already exists'')],
        ex_server_probe_fails\<lparr>issued := [FT_CREATE ''idx'', FT_CREATE ''idx'']\<rparr>,
        Inr \<lparr>rs_embedding_dim = 3, rs_index_name = ''idx'', rs_prefix = ''doc:'',
             rs_is_connected = True\<rparr>)"
  by (simp add: RedisVectorStore_init_def ping_def RedisVectorStore_create_index_def
      ft_info_def ft_create_index_def redis_init_handler_def Let_def
      ex_config_def ex_empty_server_def ex_indexed_server_def ex_server_probe_fails_def
      py_str_examples)

end
